theory Spec2Isabelle
  imports Complex_Main "HOL-Library.Sublist"
begin

section \<open>The Python runtime the script relies on\<close>

text \<open>
  The script \<^verbatim>\<open>foor.py\<close> has two functions with logic of their own:
  \<^verbatim>\<open>parse_svg_for_walls\<close> (the wall filter) and \<^verbatim>\<open>parse_d_attribute\<close> (the path
  interpreter). Both are built from a handful of Python string methods, list indexing,
  \<^verbatim>\<open>float()\<close> and float arithmetic. Every exception the source can raise is a value
  of \<open>py_error\<close>, and a function that can raise returns \<open>py_error + 'a\<close>, with \<open>Inl\<close> for
  the exception.
\<close>

datatype py_error =
    IndexError
  | ValueError
  | OverflowError
  | ParseError string
  | OSError string

subsection \<open>Strings\<close>

text \<open>
  A Python \<^verbatim>\<open>str\<close> is a \<open>string\<close>; each \<open>char\<close> stands for one code point below
  256. \<^verbatim>\<open>str.split()\<close> without an argument splits at runs of whitespace; among
  the code points below 256 these are U+0009 to U+000D, U+001C to U+0020, U+0085 and U+00A0.
\<close>

definition is_space :: "char \<Rightarrow> bool" where
  "is_space c = ((of_char c :: nat) \<in> {9, 10, 11, 12, 13, 28, 29, 30, 31, 32, 133, 160})"

text \<open>\<^verbatim>\<open>s.split()\<close>: \<open>cur\<close> is the token being read; empty tokens are never produced.\<close>

fun split_ws_from :: "string \<Rightarrow> string \<Rightarrow> string list" where
  "split_ws_from cur [] = (if cur = [] then [] else [cur])"
| "split_ws_from cur (c # cs) =
     (if is_space c
      then (if cur = [] then split_ws_from [] cs else cur # split_ws_from [] cs)
      else split_ws_from (cur @ [c]) cs)"

definition str_split_ws :: "string \<Rightarrow> string list" where
  "str_split_ws s = split_ws_from [] s"

text \<open>
  \<^verbatim>\<open>s.split(sep)\<close> for a non-empty separator: the occurrences of \<open>sep\<close> are found from
  the left and do not overlap; the result has one more piece than there are occurrences,
  so it is never empty. (Python raises ValueError for an empty separator; the script
  only passes the literals \<^verbatim>\<open>'}'\<close>, \<^verbatim>\<open>"stroke-width:"\<close> and \<^verbatim>\<open>";"\<close>. Here an
  empty separator is never found.)
\<close>

function split_from :: "string \<Rightarrow> string \<Rightarrow> string \<Rightarrow> string list" where
  "split_from sep cur [] = [cur]"
| "split_from sep cur (c # cs) =
     (if sep \<noteq> [] \<and> prefix sep (c # cs)
      then cur # split_from sep [] (drop (length sep) (c # cs))
      else split_from sep (cur @ [c]) cs)"
  by pat_completeness auto
termination
  by (relation "measure (\<lambda>(sep, cur, s). length s)") auto

definition str_split :: "string \<Rightarrow> string \<Rightarrow> string list" where
  "str_split sep s = split_from sep [] s"

text \<open>
  \<^verbatim>\<open>s.replace(old, new)\<close>: every occurrence of \<open>old\<close>, found from the left without
  overlap, becomes \<open>new\<close>. For an empty \<open>old\<close> Python puts \<open>new\<close> before every
  character and at the end.
\<close>

function str_replace :: "string \<Rightarrow> string \<Rightarrow> string \<Rightarrow> string" where
  "str_replace old new [] = (if old = [] then new else [])"
| "str_replace old new (c # cs) =
     (if old = [] then new @ c # str_replace old new cs
      else if prefix old (c # cs)
      then new @ str_replace old new (drop (length old) (c # cs))
      else c # str_replace old new cs)"
  by pat_completeness auto
termination
  by (relation "measure (\<lambda>(old, new, s). length s)") auto

text \<open>\<^verbatim>\<open>sub in s\<close>: \<open>sub\<close> occurs in \<open>s\<close> as a contiguous substring.\<close>

fun str_contains :: "string \<Rightarrow> string \<Rightarrow> bool" where
  "str_contains sub [] = (sub = [])"
| "str_contains sub (c # cs) = (prefix sub (c # cs) \<or> str_contains sub cs)"

text \<open>\<^verbatim>\<open>xs[i]\<close> for an index \<open>i \<ge> 0\<close>: IndexError out of range.\<close>

definition py_index :: "'a list \<Rightarrow> nat \<Rightarrow> py_error + 'a" where
  "py_index xs i = (if i < length xs then Inr (xs ! i) else Inl IndexError)"

subsection \<open>Numbers\<close>

text \<open>
  The script mixes the \<^verbatim>\<open>int\<close> literal \<^verbatim>\<open>0\<close> (the initial stroke width and the
  initial current point) with floats. The floats themselves are kept abstract: \<open>'f\<close> is
  the type of float values and a \<open>float_ops\<close> record gives the operations the script
  applies to them, with the exceptions Python raises:
  \<^item> \<open>float_of_str\<close> is \<^verbatim>\<open>float(s)\<close> on a string, \<open>None\<close> for ValueError;
  \<^item> \<open>fhalf\<close> is the literal \<^verbatim>\<open>0.5\<close>;
  \<^item> \<open>fsub\<close>, \<open>fadd\<close>, \<open>fmul\<close> are \<^verbatim>\<open>-\<close>, \<^verbatim>\<open>+\<close>, \<^verbatim>\<open>*\<close>, which never raise;
  \<^item> \<open>fpow2\<close> is \<^verbatim>\<open>x ** 2\<close>, \<open>None\<close> for OverflowError;
  \<^item> \<open>fsqrt\<close> is \<^verbatim>\<open>math.sqrt(x)\<close>, \<open>None\<close> for ValueError (a negative argument);
  \<^item> \<open>fgt\<close> and \<open>fge\<close> are \<^verbatim>\<open>>\<close> and \<^verbatim>\<open>>=\<close>.
  The theorems below hold for every such record, so for IEEE doubles with their rounding,
  infinities and NaN as well.
\<close>

datatype 'f py_num = PyInt int | PyFloat 'f

record 'f float_ops =
  float_of_str :: "string \<Rightarrow> 'f option"
  fhalf :: 'f
  fsub :: "'f \<Rightarrow> 'f \<Rightarrow> 'f"
  fadd :: "'f \<Rightarrow> 'f \<Rightarrow> 'f"
  fmul :: "'f \<Rightarrow> 'f \<Rightarrow> 'f"
  fpow2 :: "'f \<Rightarrow> 'f option"
  fsqrt :: "'f \<Rightarrow> 'f option"
  fgt :: "'f \<Rightarrow> 'f \<Rightarrow> bool"
  fge :: "'f \<Rightarrow> 'f \<Rightarrow> bool"

text \<open>\<^verbatim>\<open>float(s)\<close> as a call that can raise.\<close>

definition py_float :: "'f float_ops \<Rightarrow> string \<Rightarrow> py_error + 'f" where
  "py_float F s = (case float_of_str F s of None \<Rightarrow> Inl ValueError | Some v \<Rightarrow> Inr v)"

text \<open>
  \<^verbatim>\<open>n > 0.5\<close> for a number that is an \<^verbatim>\<open>int\<close> or a float: Python compares an int
  with a float exactly, so \<open>k > 0.5\<close> is \<open>k \<ge> 1\<close>.
\<close>

definition gt_half :: "'f float_ops \<Rightarrow> 'f py_num \<Rightarrow> bool" where
  "gt_half F n = (case n of PyInt k \<Rightarrow> 1 \<le> k | PyFloat x \<Rightarrow> fgt F x (fhalf F))"

section \<open>The wall filter\<close>

subsection \<open>The document\<close>

text \<open>
  \<^verbatim>\<open>ET.parse(path).getroot()\<close> is the XML library's work. It is a parameter
  \<open>et_parse\<close> of the model: from the file path to the root element, or to the exception
  raised (\<open>ParseError\<close> for malformed XML, \<open>OSError\<close> for a file that cannot be read).
  An element has a tag, a dictionary of attributes and its children; \<^verbatim>\<open>root.iter()\<close>
  yields the root and all its descendants in document order.
\<close>

datatype element =
  Element (tag: string) (attrib: "string \<rightharpoonup> string") (children: "element list")

fun iter :: "element \<Rightarrow> element list" where
  "iter (Element t a cs) = Element t a cs # concat (map iter cs)"

text \<open>\<^verbatim>\<open>attrib.get(key, default)\<close>.\<close>

definition attrib_get :: "element \<Rightarrow> string \<Rightarrow> string \<Rightarrow> string" where
  "attrib_get e k dflt = (case attrib e k of None \<Rightarrow> dflt | Some v \<Rightarrow> v)"

text \<open>The dictionary appended to \<^verbatim>\<open>wall_paths\<close>, with keys "id", "d" and "style".\<close>

record path_record =
  path_id :: string
  d_attr :: string
  style_attr :: string

text \<open>What the function prints, one value per \<^verbatim>\<open>print\<close> call.\<close>

datatype message =
    Error_parsing string
  | Detected nat
  | Sample "path_record list"

subsection \<open>\<^verbatim>\<open>calculate_distance\<close> (lines 7 to 9)\<close>

definition calculate_distance :: "'f float_ops \<Rightarrow> 'f \<Rightarrow> 'f \<Rightarrow> 'f \<Rightarrow> 'f \<Rightarrow> py_error + 'f" where
  "calculate_distance F x1 y1 x2 y2 =
     (case fpow2 F (fsub F x2 x1) of
        None \<Rightarrow> Inl OverflowError
      | Some dx2 \<Rightarrow>
          (case fpow2 F (fsub F y2 y1) of
             None \<Rightarrow> Inl OverflowError
           | Some dy2 \<Rightarrow>
               (case fsqrt F (fadd F dx2 dy2) of
                  None \<Rightarrow> Inl ValueError
                | Some r \<Rightarrow> Inr r)))"

subsection \<open>\<^verbatim>\<open>parse_svg_for_walls\<close> (lines 11 to 71)\<close>

text \<open>
  Lines 41 to 47: the stroke width of a style string. Only ValueError is caught; the
  IndexError of \<^verbatim>\<open>split("stroke-width:")[1]\<close> is not.
\<close>

definition extract_stroke_width :: "'f float_ops \<Rightarrow> string \<Rightarrow> py_error + 'f py_num" where
  "extract_stroke_width F style =
     (if str_contains ''stroke-width'' style
      then
        (case py_index (str_split ''stroke-width:'' style) 1 of
           Inl e \<Rightarrow> Inl e
         | Inr after \<Rightarrow>
             (case py_index (str_split '';'' after) 0 of
                Inl e \<Rightarrow> Inl e
              | Inr decl \<Rightarrow>
                  (case py_float F (str_replace ''px'' '''' decl) of
                     Inl ValueError \<Rightarrow> Inr (PyInt 0)
                   | Inl e \<Rightarrow> Inl e
                   | Inr v \<Rightarrow> Inr (PyFloat v))))
      else Inr (PyInt 0))"

text \<open>
  Lines 55 to 63, the body of the \<^verbatim>\<open>try\<close>: \<open>float_at\<close> is \<^verbatim>\<open>float(commands[j])\<close>;
  the four coordinates are read in the order of the source, then the segment is measured
  and the record appended.
\<close>

definition float_at :: "'f float_ops \<Rightarrow> string list \<Rightarrow> nat \<Rightarrow> py_error + 'f" where
  "float_at F commands j =
     (case py_index commands j of Inl e \<Rightarrow> Inl e | Inr c \<Rightarrow> py_float F c)"

definition probe_segment ::
  "'f float_ops \<Rightarrow> 'f \<Rightarrow> string list \<Rightarrow> path_record \<Rightarrow> path_record list
     \<Rightarrow> py_error + path_record list" where
  "probe_segment F min_segment_length commands r wall_paths =
     (case float_at F commands 1 of Inl e \<Rightarrow> Inl e | Inr x1 \<Rightarrow>
     (case float_at F commands 2 of Inl e \<Rightarrow> Inl e | Inr y1 \<Rightarrow>
     (case float_at F commands 4 of Inl e \<Rightarrow> Inl e | Inr x2 \<Rightarrow>
     (case float_at F commands 5 of Inl e \<Rightarrow> Inl e | Inr y2 \<Rightarrow>
     (case calculate_distance F x1 y1 x2 y2 of Inl e \<Rightarrow> Inl e | Inr segment_length \<Rightarrow>
        if fge F segment_length min_segment_length
        then Inr (wall_paths @ [r])
        else Inr wall_paths)))))"

text \<open>
  Lines 34 to 65, the body of the \<^verbatim>\<open>for\<close> loop: from \<^verbatim>\<open>wall_paths\<close> before the
  element to \<^verbatim>\<open>wall_paths\<close> after it, or the exception that leaves the function.
  \<^verbatim>\<open>except (IndexError, ValueError): continue\<close> keeps the list as it was.
\<close>

definition wall_step ::
  "'f float_ops \<Rightarrow> 'f \<Rightarrow> element \<Rightarrow> path_record list \<Rightarrow> py_error + path_record list" where
  "wall_step F min_segment_length element wall_paths =
     (let tg = last (str_split ''}'' (tag element)) in
      if tg = ''path'' then
        (let pid = attrib_get element ''id'' ''N/A'';
             d = attrib_get element ''d'' '''';
             style = attrib_get element ''style'' ''''
         in case extract_stroke_width F style of
              Inl e \<Rightarrow> Inl e
            | Inr stroke_width \<Rightarrow>
                if gt_half F stroke_width then
                  (let commands = str_split_ws (str_replace '','' '' '' d) in
                   if 4 \<le> length commands then
                     (case probe_segment F min_segment_length commands
                             \<lparr>path_id = pid, d_attr = d, style_attr = style\<rparr> wall_paths of
                        Inl IndexError \<Rightarrow> Inr wall_paths
                      | Inl ValueError \<Rightarrow> Inr wall_paths
                      | Inl e \<Rightarrow> Inl e
                      | Inr wp \<Rightarrow> Inr wp)
                   else Inr wall_paths)
                else Inr wall_paths)
      else Inr wall_paths)"

text \<open>The \<^verbatim>\<open>for\<close> loop over \<^verbatim>\<open>root.iter()\<close>: the first exception ends it.\<close>

fun walls_loop ::
  "'f float_ops \<Rightarrow> 'f \<Rightarrow> element list \<Rightarrow> path_record list \<Rightarrow> py_error + path_record list" where
  "walls_loop F m [] wall_paths = Inr wall_paths"
| "walls_loop F m (e # es) wall_paths =
     (case wall_step F m e wall_paths of
        Inl err \<Rightarrow> Inl err
      | Inr wp \<Rightarrow> walls_loop F m es wp)"

text \<open>
  The whole function: what it printed, and the list it returned or the exception it
  raised. Only \<^verbatim>\<open>ET.ParseError\<close> is caught at lines 24 to 29.
\<close>

definition parse_svg_for_walls ::
  "'f float_ops \<Rightarrow> (string \<Rightarrow> py_error + element) \<Rightarrow> string \<Rightarrow> 'f
     \<Rightarrow> message list \<times> (py_error + path_record list)" where
  "parse_svg_for_walls F et_parse svg_file_path min_segment_length =
     (case et_parse svg_file_path of
        Inl (ParseError e) \<Rightarrow> ([Error_parsing e], Inr [])
      | Inl err \<Rightarrow> ([], Inl err)
      | Inr root_element \<Rightarrow>
          (case walls_loop F min_segment_length (iter root_element) [] of
             Inl err \<Rightarrow> ([], Inl err)
           | Inr wall_paths \<Rightarrow>
               (Detected (length wall_paths)
                  # (if wall_paths \<noteq> [] then [Sample (take 3 wall_paths)] else []),
                Inr wall_paths)))"

section \<open>The path interpreter\<close>

subsection \<open>\<^verbatim>\<open>parse_d_attribute\<close> (lines 73 to 109)\<close>

type_synonym 'f point = "'f py_num \<times> 'f py_num"

text \<open>The state of the \<^verbatim>\<open>while\<close> loop: \<^verbatim>\<open>i\<close>, \<^verbatim>\<open>current_point\<close> and \<^verbatim>\<open>points\<close>.\<close>

type_synonym 'f loop_state = "nat \<times> 'f point \<times> 'f point list"

text \<open>\<^verbatim>\<open>float(commands[j]) * scale\<close>.\<close>

definition coord :: "'f float_ops \<Rightarrow> string list \<Rightarrow> nat \<Rightarrow> 'f \<Rightarrow> py_error + 'f py_num" where
  "coord F commands j scale =
     (case py_index commands j of
        Inl e \<Rightarrow> Inl e
      | Inr c \<Rightarrow>
          (case py_float F c of
             Inl e \<Rightarrow> Inl e
           | Inr v \<Rightarrow> Inr (PyFloat (fmul F v scale))))"

text \<open>
  Lines 90 to 107, one turn of the loop, entered with \<open>i < length commands\<close>. The branches
  are those of the source, in its order.
\<close>

definition loop_body ::
  "'f float_ops \<Rightarrow> string list \<Rightarrow> 'f \<Rightarrow> 'f loop_state \<Rightarrow> py_error + 'f loop_state" where
  "loop_body F commands scale st =
     (case st of (i, current_point, points) \<Rightarrow>
       (let cmd = commands ! i in
        if cmd = ''M'' \<or> cmd = ''L'' then
          (case coord F commands (i + 1) scale of
             Inl e \<Rightarrow> Inl e
           | Inr x \<Rightarrow>
               (case coord F commands (i + 2) scale of
                  Inl e \<Rightarrow> Inl e
                | Inr y \<Rightarrow> Inr (i + 3, (x, y), points @ [(x, y)])))
        else if cmd = ''H'' then
          (case coord F commands (i + 1) scale of
             Inl e \<Rightarrow> Inl e
           | Inr x \<Rightarrow>
               Inr (i + 2, (x, snd current_point), points @ [(x, snd current_point)]))
        else if cmd = ''V'' then
          (case coord F commands (i + 1) scale of
             Inl e \<Rightarrow> Inl e
           | Inr y \<Rightarrow>
               Inr (i + 2, (fst current_point, y), points @ [(fst current_point, y)]))
        else if cmd = ''Z'' then
          (case py_index points 0 of
             Inl e \<Rightarrow> Inl e
           | Inr p \<Rightarrow> Inr (i + 1, current_point, points @ [p]))
        else Inr (i + 1, current_point, points)))"

text \<open>The \<^verbatim>\<open>while\<close> loop of lines 89 to 107 and the \<^verbatim>\<open>return\<close> of line 109.\<close>

function parse_loop ::
  "'f float_ops \<Rightarrow> string list \<Rightarrow> 'f \<Rightarrow> 'f loop_state \<Rightarrow> py_error + 'f point list" where
  "parse_loop F commands scale (i, current_point, points) =
     (if i < length commands then
        (case loop_body F commands scale (i, current_point, points) of
           Inl e \<Rightarrow> Inl e
         | Inr st \<Rightarrow> parse_loop F commands scale st)
      else Inr points)"
  by pat_completeness auto
termination
proof (relation "measure (\<lambda>(F, commands, scale, i, cp, ps). length commands - i)")
  show "wf (measure (\<lambda>(F, commands, scale, i, cp, ps). length commands - i))"
    by simp
next
  fix F :: "'f float_ops" and commands scale i and current_point :: "'f point"
    and points :: "'f point list" and st :: "'f loop_state"
  assume "i < length commands"
    and "loop_body F commands scale (i, current_point, points) = Inr st"
  then have "i < fst st"
    by (auto simp: loop_body_def Let_def split: if_splits sum.splits)
  with \<open>i < length commands\<close>
  show "((F, commands, scale, st), (F, commands, scale, i, current_point, points))
          \<in> measure (\<lambda>(F, commands, scale, i, cp, ps). length commands - i)"
    by (cases st) auto
qed

definition parse_d_attribute :: "'f float_ops \<Rightarrow> string \<Rightarrow> 'f \<Rightarrow> py_error + 'f point list" where
  "parse_d_attribute F d scale =
     parse_loop F (str_split_ws (str_replace '','' '' '' d)) scale (0, (PyInt 0, PyInt 0), [])"

text \<open>
  The states the loop passes through: \<open>reaches F commands scale st\<close> holds when the loop,
  started as at lines 85 to 88, stands at the top of a turn in state \<open>st\<close>, no turn before
  having raised.
\<close>

inductive reaches :: "'f float_ops \<Rightarrow> string list \<Rightarrow> 'f \<Rightarrow> 'f loop_state \<Rightarrow> bool"
  for F :: "'f float_ops" and commands :: "string list" and scale :: 'f where
  start: "reaches F commands scale (0, (PyInt 0, PyInt 0), [])"
| turn: "reaches F commands scale (i, current_point, points) \<Longrightarrow> i < length commands \<Longrightarrow>
         loop_body F commands scale (i, current_point, points) = Inr st \<Longrightarrow>
         reaches F commands scale st"

text \<open>
  The command at position \<open>i\<close> cannot get its coordinates: it is \<^verbatim>\<open>M\<close> or \<^verbatim>\<open>L\<close> and
  fewer than two tokens follow or one of the two is not a float, or it is \<^verbatim>\<open>H\<close> or
  \<^verbatim>\<open>V\<close> and no token follows or the next one is not a float.
\<close>

definition coordinate_fault :: "'f float_ops \<Rightarrow> string list \<Rightarrow> nat \<Rightarrow> bool" where
  "coordinate_fault F commands i =
     ((commands ! i \<in> {''M'', ''L''}
        \<and> (length commands \<le> i + 2
             \<or> float_of_str F (commands ! (i + 1)) = None
             \<or> float_of_str F (commands ! (i + 2)) = None))
      \<or> (commands ! i \<in> {''H'', ''V''}
        \<and> (length commands \<le> i + 1
             \<or> float_of_str F (commands ! (i + 1)) = None)))"

section \<open>An instance of the float operations\<close>

text \<open>
  To run the model on concrete inputs the float operations need an instance. \<open>exact_ops\<close>
  computes on the reals without rounding: \<open>decimal_value\<close> reads an optionally signed
  decimal literal (digits with at most one point, no exponent) as its exact value, the
  arithmetic is that of the reals, squaring never overflows and the square root raises
  for a negative argument only. On the literals used below (small integers, and decimal
  fractions that are only compared) IEEE doubles give the same answers.
\<close>

definition is_digit :: "char \<Rightarrow> bool" where
  "is_digit c = (48 \<le> (of_char c :: nat) \<and> (of_char c :: nat) \<le> 57)"

fun digits_value :: "nat \<Rightarrow> string \<Rightarrow> nat" where
  "digits_value acc [] = acc"
| "digits_value acc (c # cs) = digits_value (10 * acc + (of_char c - 48)) cs"

definition unsigned_value :: "string \<Rightarrow> real option" where
  "unsigned_value s =
     (let ip = takeWhile is_digit s; rest = dropWhile is_digit s in
      case rest of
        [] \<Rightarrow> (if ip = [] then None else Some (real (digits_value 0 ip)))
      | c # fp \<Rightarrow>
          (if c = CHR ''.'' \<and> list_all is_digit fp \<and> (ip \<noteq> [] \<or> fp \<noteq> [])
           then Some (real (digits_value 0 ip) + real (digits_value 0 fp) / 10 ^ length fp)
           else None))"

definition decimal_value :: "string \<Rightarrow> real option" where
  "decimal_value s =
     (case s of
        [] \<Rightarrow> None
      | c # cs \<Rightarrow>
          (if c = CHR ''-'' then map_option uminus (unsigned_value cs)
           else if c = CHR ''+'' then unsigned_value cs
           else unsigned_value s))"

definition exact_ops :: "real float_ops" where
  "exact_ops =
     \<lparr> float_of_str = decimal_value,
       fhalf = 1 / 2,
       fsub = (\<lambda>x y. x - y),
       fadd = (\<lambda>x y. x + y),
       fmul = (\<lambda>x y. x * y),
       fpow2 = (\<lambda>x. Some (x * x)),
       fsqrt = (\<lambda>x. if x < 0 then None else Some (sqrt x)),
       fgt = (\<lambda>x y. x > y),
       fge = (\<lambda>x y. x \<ge> y) \<rparr>"

section \<open>The wall filter as the specification words it\<close>

text \<open>
  The specification describes the output of the wall filter by three conditions on each
  element. They are written here from the specification's words, with functions of their
  own: apart from the Python runtime (the float operations, the whitespace of
  \<^verbatim>\<open>str.split()\<close>, \<^verbatim>\<open>str.replace\<close>, \<^verbatim>\<open>dict.get\<close>) nothing below is used by the model
  of the code above, so that the two can be compared.
\<close>

subsection \<open>The namespace-stripped tag\<close>

text \<open>
  A tag is \<^verbatim>\<open>name\<close> or \<^verbatim>\<open>{namespace}name\<close>: the local name is what follows the last
  closing brace, and the whole tag when there is none.
\<close>

definition local_name :: "string \<Rightarrow> string" where
  "local_name t = rev (takeWhile (\<lambda>c. c \<noteq> CHR ''}'') (rev t))"

subsection \<open>The stroke width a style yields\<close>

text \<open>
  \<open>up_to sep s\<close> is the text of \<open>s\<close> before the first occurrence of \<open>sep\<close> (all of \<open>s\<close> when
  there is none); \<open>after_first sep s\<close> is the text after that occurrence, if there is one.
\<close>

fun up_to :: "string \<Rightarrow> string \<Rightarrow> string" where
  "up_to sep [] = []"
| "up_to sep (c # cs) = (if prefix sep (c # cs) then [] else c # up_to sep cs)"

fun after_first :: "string \<Rightarrow> string \<Rightarrow> string option" where
  "after_first sep [] = (if sep = [] then Some [] else None)"
| "after_first sep (c # cs) =
     (if prefix sep (c # cs) then Some (drop (length sep) (c # cs)) else after_first sep cs)"

text \<open>
  The specification's extraction: ``locate substring after \<^verbatim>\<open>stroke-width:\<close> up to the next
  \<^verbatim>\<open>;\<close>, strip a trailing \<^verbatim>\<open>px\<close> unit, parse as float; on absence or parse failure,
  treat as 0''. \<open>stated_stroke_width_text\<close> is the text that is then parsed, \<open>None\<close> when the
  style has no \<^verbatim>\<open>stroke-width:\<close>.
\<close>

definition stated_stroke_width_text :: "string \<Rightarrow> string option" where
  "stated_stroke_width_text style =
     (case after_first ''stroke-width:'' style of
        None \<Rightarrow> None
      | Some rest \<Rightarrow>
          (let decl = up_to '';'' rest in
           Some (if suffix ''px'' decl then take (length decl - 2) decl else decl)))"

text \<open>
  The extraction with the two details in which the script differs from these words: the
  text ends at the next \<^verbatim>\<open>;\<close> or at the next \<^verbatim>\<open>stroke-width:\<close>, whichever comes first,
  and every \<^verbatim>\<open>px\<close> in it is removed, not only one at its end.
\<close>

definition stroke_width_text :: "string \<Rightarrow> string option" where
  "stroke_width_text style =
     (case after_first ''stroke-width:'' style of
        None \<Rightarrow> None
      | Some rest \<Rightarrow>
          Some (str_replace ''px'' '''' (up_to '';'' (up_to ''stroke-width:'' rest))))"

text \<open>
  ``Parsed as a floating-point value \<open>> 0.5\<close>'': the text is a float and that float is above
  0.5. No text, or a text that is not a float, counts as 0 and is not above 0.5.
\<close>

definition above_half :: "'f float_ops \<Rightarrow> string option \<Rightarrow> bool" where
  "above_half F text =
     (case text of
        None \<Rightarrow> False
      | Some t \<Rightarrow> (case float_of_str F t of None \<Rightarrow> False | Some w \<Rightarrow> fgt F w (fhalf F)))"

subsection \<open>The first segment\<close>

text \<open>
  The \<^verbatim>\<open>d\<close> string tokenized on commas and whitespace: a token is a maximal run of
  characters that are neither.
\<close>

function field_split :: "(char \<Rightarrow> bool) \<Rightarrow> string \<Rightarrow> string list" where
  "field_split sep [] = []"
| "field_split sep (c # cs) =
     (if sep c then field_split sep cs
      else (c # takeWhile (\<lambda>x. \<not> sep x) cs) # field_split sep (dropWhile (\<lambda>x. \<not> sep x) cs))"
  by pat_completeness auto
termination
  by (relation "measure (\<lambda>(sep, s). length s)")
     (auto intro: le_imp_less_Suc length_dropWhile_le)

definition d_tokens :: "string \<Rightarrow> string list" where
  "d_tokens d = field_split (\<lambda>c. c = CHR '','' \<or> is_space c) d"

text \<open>
  The Euclidean distance between two points: the square root of the sum of the squared
  differences of their coordinates, in the float operations. There is none when a square
  overflows or the root is not defined.
\<close>

definition euclidean :: "'f float_ops \<Rightarrow> 'f \<times> 'f \<Rightarrow> 'f \<times> 'f \<Rightarrow> 'f option" where
  "euclidean F p q =
     (case fpow2 F (fsub F (fst q) (fst p)) of
        None \<Rightarrow> None
      | Some dx2 \<Rightarrow>
          (case fpow2 F (fsub F (snd q) (snd p)) of
             None \<Rightarrow> None
           | Some dy2 \<Rightarrow> fsqrt F (fadd F dx2 dy2)))"

text \<open>
  The distance between the points read from tokens 1, 2 and tokens 4, 5; there is none
  when one of these tokens is missing or is not a float.
\<close>

definition first_segment_length :: "'f float_ops \<Rightarrow> string \<Rightarrow> 'f option" where
  "first_segment_length F d =
     (let c = d_tokens d in
      if length c < 6 then None
      else
        (case (float_of_str F (c ! 1), float_of_str F (c ! 2),
               float_of_str F (c ! 4), float_of_str F (c ! 5)) of
           (Some x1, Some y1, Some x2, Some y2) \<Rightarrow> euclidean F (x1, y1) (x2, y2)
         | _ \<Rightarrow> None))"

definition long_enough :: "'f float_ops \<Rightarrow> 'f \<Rightarrow> string \<Rightarrow> bool" where
  "long_enough F m d =
     (case first_segment_length F d of None \<Rightarrow> False | Some seg \<Rightarrow> fge F seg m)"

subsection \<open>The three conditions\<close>

text \<open>
  \<open>stated_wall\<close> is the condition with the extraction as the specification words it,
  \<open>is_wall\<close> the condition with the extraction as the script performs it. \<open>wall_record\<close> is
  the record of an element: its id (\<^verbatim>\<open>N/A\<close> when missing), its whole \<^verbatim>\<open>d\<close> string and
  its whole style string.
\<close>

definition stated_wall :: "'f float_ops \<Rightarrow> 'f \<Rightarrow> element \<Rightarrow> bool" where
  "stated_wall F m e =
     (local_name (tag e) = ''path''
      \<and> above_half F (stated_stroke_width_text (attrib_get e ''style'' ''''))
      \<and> long_enough F m (attrib_get e ''d'' ''''))"

definition is_wall :: "'f float_ops \<Rightarrow> 'f \<Rightarrow> element \<Rightarrow> bool" where
  "is_wall F m e =
     (local_name (tag e) = ''path''
      \<and> above_half F (stroke_width_text (attrib_get e ''style'' ''''))
      \<and> long_enough F m (attrib_get e ''d'' ''''))"

definition wall_record :: "element \<Rightarrow> path_record" where
  "wall_record e =
     \<lparr> path_id = attrib_get e ''id'' ''N/A'',
       d_attr = attrib_get e ''d'' '''',
       style_attr = attrib_get e ''style'' '''' \<rparr>"

section \<open>Sample documents\<close>

text \<open>
  \<open>parsed_as document\<close> is an XML library that parses every file to \<open>document\<close>.

  \<open>example_document\<close> has a namespaced path with a thick stroke and a slanted first segment
  of length 10, a path with two stroke-width declarations of which the first is thick, a
  path with two of which the first is thin, a path of stroke width 0.5, a thick path whose
  first segment has length 5 and ends at x = 12, and an element that is not a path.
  \<open>odd_unit_document\<close> is a single path whose stroke width has \<^verbatim>\<open>px\<close> inside the number.
\<close>

definition parsed_as :: "element \<Rightarrow> string \<Rightarrow> py_error + element" where
  "parsed_as document svg_file_path = Inr document"

definition example_document :: element where
  "example_document =
     Element ''{http://www.w3.org/2000/svg}svg'' Map.empty
       [Element ''{http://www.w3.org/2000/svg}path''
          [''id'' \<mapsto> ''slanted'', ''d'' \<mapsto> ''M 0,0 L 6,8'',
           ''style'' \<mapsto> ''fill:none;stroke-width:2px;stroke:#000''] [],
        Element ''path''
          [''id'' \<mapsto> ''thick-first'', ''d'' \<mapsto> ''M 0 0 L 12 16'',
           ''style'' \<mapsto> ''stroke-width:2px;stroke-width:0.1px;''] [],
        Element ''path''
          [''id'' \<mapsto> ''thin-first'', ''d'' \<mapsto> ''M 0 0 L 20 0'',
           ''style'' \<mapsto> ''stroke-width:0.1px;stroke-width:2px;''] [],
        Element ''path''
          [''id'' \<mapsto> ''half'', ''d'' \<mapsto> ''M 0 0 L 20 0'', ''style'' \<mapsto> ''stroke-width:0.5px;''] [],
        Element ''path''
          [''d'' \<mapsto> ''M 15 0 L 12 4'', ''style'' \<mapsto> ''stroke-width:2px;''] [],
        Element ''rect''
          [''id'' \<mapsto> ''box'', ''style'' \<mapsto> ''stroke-width:3px;''] []]"

definition odd_unit_document :: element where
  "odd_unit_document =
     Element ''path'' [''d'' \<mapsto> ''M 0 0 L 6 8'', ''style'' \<mapsto> ''stroke-width:1px5;''] []"

section \<open>Facts about the string methods\<close>

lemma split_from_not_Nil: "split_from sep cur s \<noteq> []"
  by (induction sep cur s rule: split_from.induct) auto

lemma split_from_char_absent:
  "c \<notin> set s \<Longrightarrow> split_from [c] cur s = [cur @ s]"
  by (induction s arbitrary: cur) auto

lemma split_from_char_first:
  "c \<notin> set u \<Longrightarrow> split_from [c] cur (u @ c # rest) = (cur @ u) # split_from [c] [] rest"
  by (induction u arbitrary: cur) auto

lemma split_from_char_last:
  "c \<notin> set suf \<Longrightarrow> last (split_from [c] cur (pre @ c # suf)) = suf"
  by (induction pre arbitrary: cur) (auto simp: split_from_char_absent split_from_not_Nil)

lemma local_name_qualified:
  "last (str_split ''}'' (''{'' @ ns @ ''}path'')) = ''path''"
proof -
  have "last (split_from [CHR ''}''] [] ((''{'' @ ns) @ CHR ''}'' # ''path'')) = ''path''"
    by (rule split_from_char_last) simp
  then show ?thesis by (simp add: str_split_def)
qed

lemma local_name_plain: "last (str_split ''}'' ''path'') = ''path''"
  by (simp add: str_split_def)

lemma prefix_append_short:
  "prefix xs (ys @ zs) \<Longrightarrow> length xs \<le> length ys \<Longrightarrow> prefix xs ys"
  by (auto simp: prefix_append)

text \<open>
  The first piece of a split ends where the separator first occurs: if \<open>sep\<close> does not
  occur in \<open>pre\<close> followed by all but the last character of \<open>sep\<close>, its first occurrence
  in \<open>pre @ sep @ rest\<close> is the one written.
\<close>

lemma split_from_first:
  assumes "sep \<noteq> []" and "\<not> str_contains sep (pre @ butlast sep)"
  shows "split_from sep cur (pre @ sep @ rest) = (cur @ pre) # split_from sep [] rest"
  using assms(2)
proof (induction pre arbitrary: cur)
  case Nil
  from assms(1) obtain c sep' where sep: "sep = c # sep'" by (cases sep) auto
  have "split_from sep cur (sep @ rest) = cur # split_from sep [] (drop (length sep) (sep @ rest))"
    unfolding sep by simp
  then show ?case by simp
next
  case (Cons x pre)
  have np: "\<not> prefix sep (x # pre @ butlast sep)" and nc: "\<not> str_contains sep (pre @ butlast sep)"
    using Cons.prems by auto
  have "\<not> prefix sep (x # pre @ sep @ rest)"
  proof
    assume p: "prefix sep (x # pre @ sep @ rest)"
    have "x # pre @ sep @ rest = (x # pre @ butlast sep) @ (last sep # rest)"
      using assms(1) by simp
    with p have "prefix sep ((x # pre @ butlast sep) @ (last sep # rest))" by simp
    moreover have "length sep \<le> length (x # pre @ butlast sep)"
      using assms(1) by simp
    ultimately have "prefix sep (x # pre @ butlast sep)"
      by (rule prefix_append_short)
    with np show False ..
  qed
  then show ?case
    using Cons.IH [OF nc, of "cur @ [x]"] by simp
qed

lemma split_from_head_extends:
  "\<exists>w ws. split_from sep cur s = (cur @ w) # ws"
proof (induction sep cur s rule: split_from.induct)
  case (1 sep cur)
  then show ?case by simp
next
  case (2 sep cur c cs)
  show ?case
  proof (cases "sep \<noteq> [] \<and> prefix sep (c # cs)")
    case True
    then show ?thesis by simp
  next
    case False
    with 2(2) obtain w ws where "split_from sep (cur @ [c]) cs = ((cur @ [c]) @ w) # ws"
      by blast
    with False show ?thesis by auto
  qed
qed

lemma split_from_head_keeps:
  assumes "sep = c # sep'" and "c \<notin> set u"
  shows "\<exists>w ws. split_from sep cur (u @ rest) = (cur @ u @ w) # ws"
  using assms(2)
proof (induction u arbitrary: cur)
  case Nil
  then show ?case using split_from_head_extends [of sep cur rest] by simp
next
  case (Cons x u)
  then have "x \<noteq> c" and "c \<notin> set u" by auto
  from Cons.IH [OF \<open>c \<notin> set u\<close>, of "cur @ [x]"] \<open>x \<noteq> c\<close>
  show ?case by (simp add: assms(1))
qed

lemma replace_px_suffix:
  "CHR ''p'' \<notin> set v \<Longrightarrow> str_replace ''px'' '''' (v @ ''px'') = v"
  by (induction v) auto

lemma str_contains_prefix: "prefix sub s \<Longrightarrow> str_contains sub s"
  by (cases s) auto

lemma str_contains_append: "str_contains sub s \<Longrightarrow> str_contains sub (pre @ s)"
  by (induction pre) auto

lemma str_contains_middle: "str_contains sub (pre @ sub @ post)"
  by (rule str_contains_append) (simp add: str_contains_prefix)

section \<open>The wall filter: properties\<close>

text \<open>
  C6. When the XML library reports malformed XML (\<^verbatim>\<open>ET.ParseError\<close>), the wall filter
  prints the error message and returns the empty list; it does not raise.
\<close>

theorem malformed_xml_reported:
  assumes "et_parse svg_file_path = Inl (ParseError msg)"
  shows "parse_svg_for_walls F et_parse svg_file_path m = ([Error_parsing msg], Inr [])"
  using assms by (simp add: parse_svg_for_walls_def)

theorem malformed_xml_reported_witness:
  "parse_svg_for_walls exact_ops (\<lambda>p. Inl (ParseError ''mismatched tag: line 3, column 2''))
     ''floor_1_small.svg'' 10
   = ([Error_parsing ''mismatched tag: line 3, column 2''], Inr [])"
  by (rule malformed_xml_reported) simp

text \<open>
  C7. The tag test looks at the local name only: an element tagged \<^verbatim>\<open>{ns}path\<close>, for
  any namespace \<open>ns\<close>, is treated by the loop body exactly as the element tagged
  \<^verbatim>\<open>path\<close> with the same attributes and children.
\<close>

theorem namespace_ignored:
  "wall_step F m (Element (''{'' @ ns @ ''}path'') a cs) wall_paths
     = wall_step F m (Element ''path'' a cs) wall_paths"
  unfolding wall_step_def element.sel local_name_qualified local_name_plain
  by (simp add: attrib_get_def)

text \<open>
  C2 (the code at the failing input). A path element whose style names
  \<^verbatim>\<open>stroke-width\<close> without the colon: \<^verbatim>\<open>split("stroke-width:")\<close> has one piece, index
  1 raises IndexError, the handler of line 46 catches ValueError only, and the exception
  leaves \<^verbatim>\<open>parse_svg_for_walls\<close>. Nothing is printed and no list is returned.
\<close>

theorem missing_colon_raises:
  "parse_svg_for_walls F
     (\<lambda>p. Inr (Element ''path'' [''style'' \<mapsto> ''stroke-width 2px'', ''d'' \<mapsto> ''M 0 0 L 20 0''] []))
     svg_file_path m
   = ([], Inl IndexError)"
  by (simp add: parse_svg_for_walls_def wall_step_def str_split_def attrib_get_def
      extract_stroke_width_def py_index_def)

section \<open>The path interpreter: properties\<close>

text \<open>
  C8. On the empty \<^verbatim>\<open>d\<close> string the path interpreter returns the empty list of
  points; it does not raise.
\<close>

theorem empty_d_no_points:
  "parse_d_attribute F '''' scale = Inr []"
  by (simp add: parse_d_attribute_def str_split_ws_def)

text \<open>
  C4. For every float implementation that reads the literals 1, 2, 5 and 9, the path
  interpreter turns \<^verbatim>\<open>M 1 1 L 2 2 H 5 V 9 Z\<close> into five points: \<^verbatim>\<open>M\<close> and
  \<^verbatim>\<open>L\<close> emit both scaled coordinates, \<^verbatim>\<open>H\<close> replaces x only, \<^verbatim>\<open>V\<close> replaces y
  only and \<^verbatim>\<open>Z\<close> emits the first point again. With a scale that leaves the four
  values as they are (scale 1) the points are (1,1), (2,2), (5,2), (5,9), (1,1).
\<close>

theorem path_example:
  assumes "float_of_str F ''1'' = Some f1" and "float_of_str F ''2'' = Some f2"
    and "float_of_str F ''5'' = Some f5" and "float_of_str F ''9'' = Some f9"
  shows "parse_d_attribute F ''M 1 1 L 2 2 H 5 V 9 Z'' s
           = Inr [(PyFloat (fmul F f1 s), PyFloat (fmul F f1 s)),
                  (PyFloat (fmul F f2 s), PyFloat (fmul F f2 s)),
                  (PyFloat (fmul F f5 s), PyFloat (fmul F f2 s)),
                  (PyFloat (fmul F f5 s), PyFloat (fmul F f9 s)),
                  (PyFloat (fmul F f1 s), PyFloat (fmul F f1 s))]
       \<and> (fmul F f1 s = f1 \<and> fmul F f2 s = f2 \<and> fmul F f5 s = f5 \<and> fmul F f9 s = f9 \<longrightarrow>
            parse_d_attribute F ''M 1 1 L 2 2 H 5 V 9 Z'' s
              = Inr [(PyFloat f1, PyFloat f1), (PyFloat f2, PyFloat f2), (PyFloat f5, PyFloat f2),
                     (PyFloat f5, PyFloat f9), (PyFloat f1, PyFloat f1)])"
proof -
  have tokens: "str_split_ws (str_replace '','' '' '' ''M 1 1 L 2 2 H 5 V 9 Z'')
                  = [''M'', ''1'', ''1'', ''L'', ''2'', ''2'', ''H'', ''5'', ''V'', ''9'', ''Z'']"
    by (simp add: str_split_ws_def is_space_def)
  have run: "parse_d_attribute F ''M 1 1 L 2 2 H 5 V 9 Z'' s
           = Inr [(PyFloat (fmul F f1 s), PyFloat (fmul F f1 s)),
                  (PyFloat (fmul F f2 s), PyFloat (fmul F f2 s)),
                  (PyFloat (fmul F f5 s), PyFloat (fmul F f2 s)),
                  (PyFloat (fmul F f5 s), PyFloat (fmul F f9 s)),
                  (PyFloat (fmul F f1 s), PyFloat (fmul F f1 s))]"
    unfolding parse_d_attribute_def tokens
    by (simp add: loop_body_def coord_def py_index_def py_float_def assms)
  then show ?thesis by simp
qed

theorem path_example_witness:
  "parse_d_attribute exact_ops ''M 1 1 L 2 2 H 5 V 9 Z'' 1
     = Inr [(PyFloat 1, PyFloat 1), (PyFloat 2, PyFloat 2), (PyFloat 5, PyFloat 2),
            (PyFloat 5, PyFloat 9), (PyFloat 1, PyFloat 1)]"
proof -
  have p: "float_of_str exact_ops ''1'' = Some 1" "float_of_str exact_ops ''2'' = Some 2"
     "float_of_str exact_ops ''5'' = Some 5" "float_of_str exact_ops ''9'' = Some 9"
    by (simp_all add: exact_ops_def decimal_value_def unsigned_value_def is_digit_def)
  have m: "fmul exact_ops 1 1 = 1 \<and> fmul exact_ops 2 1 = 2 \<and> fmul exact_ops 5 1 = 5
            \<and> fmul exact_ops 9 1 = 9"
    by (simp add: exact_ops_def)
  from path_example [OF p, of 1] m show ?thesis by blast
qed

text \<open>
  While no point has been emitted, every token is looked at as a command; if none of the
  tokens before a \<^verbatim>\<open>Z\<close> is \<^verbatim>\<open>M\<close>, \<^verbatim>\<open>L\<close>, \<^verbatim>\<open>H\<close> or \<^verbatim>\<open>V\<close>, the loop gets
  to that \<^verbatim>\<open>Z\<close> (or to an earlier one) with \<^verbatim>\<open>points\<close> still empty.
\<close>

lemma parse_loop_close_empty:
  assumes "\<forall>t\<in>set pre. t \<notin> {''M'', ''L'', ''H'', ''V''}"
  shows "i \<le> length pre \<Longrightarrow>
     parse_loop F (pre @ ''Z'' # rest) scale (i, cp, []) = Inl IndexError"
proof (induction "length pre - i" arbitrary: i)
  case 0
  then have i: "i = length pre" by simp
  have "loop_body F (pre @ ''Z'' # rest) scale (i, cp, []) = Inl IndexError"
    by (simp add: loop_body_def i py_index_def)
  then show ?case by (simp add: i)
next
  case (Suc n)
  then have lt: "i < length pre" by simp
  then have mem: "pre ! i \<in> set pre" by simp
  with assms have nc: "pre ! i \<notin> {''M'', ''L'', ''H'', ''V''}" by blast
  have cmd: "(pre @ ''Z'' # rest) ! i = pre ! i" using lt by (simp add: nth_append)
  show ?case
  proof (cases "pre ! i = ''Z''")
    case True
    have "loop_body F (pre @ ''Z'' # rest) scale (i, cp, []) = Inl IndexError"
      using True by (simp add: loop_body_def cmd py_index_def)
    then show ?thesis using lt by simp
  next
    case False
    have "loop_body F (pre @ ''Z'' # rest) scale (i, cp, []) = Inr (i + 1, cp, [])"
      using False nc by (simp add: loop_body_def cmd)
    moreover have "parse_loop F (pre @ ''Z'' # rest) scale (i + 1, cp, []) = Inl IndexError"
      using Suc.hyps(1) [of "i + 1"] Suc.hyps(2) lt by simp
    ultimately show ?thesis using lt by simp
  qed
qed

text \<open>
  C5. A \<^verbatim>\<open>Z\<close> token that is processed before any point has been emitted makes the path
  interpreter raise IndexError (\<^verbatim>\<open>points[0]\<close> on the empty list): this is so whenever
  no token before that \<^verbatim>\<open>Z\<close> is \<^verbatim>\<open>M\<close>, \<^verbatim>\<open>L\<close>, \<^verbatim>\<open>H\<close> or \<^verbatim>\<open>V\<close>, and in
  particular when \<^verbatim>\<open>Z\<close> is the first token.
\<close>

theorem close_before_any_point:
  assumes "str_split_ws (str_replace '','' '' '' d) = pre @ ''Z'' # rest"
    and "\<forall>t\<in>set pre. t \<notin> {''M'', ''L'', ''H'', ''V''}"
  shows "parse_d_attribute F d scale = Inl IndexError"
  unfolding parse_d_attribute_def assms(1)
  by (rule parse_loop_close_empty [OF assms(2)]) simp

theorem close_before_any_point_witness:
  "parse_d_attribute exact_ops ''Z'' 100 = Inl IndexError
   \<and> parse_d_attribute exact_ops ''m 3,4 Z M 1 1'' 100 = Inl IndexError"
proof
  have "str_split_ws (str_replace '','' '' '' ''Z'') = [] @ ''Z'' # []"
    by (simp add: str_split_ws_def is_space_def)
  from close_before_any_point [OF this]
  show "parse_d_attribute exact_ops ''Z'' 100 = Inl IndexError" by simp
next
  have "str_split_ws (str_replace '','' '' '' ''m 3,4 Z M 1 1'')
          = [''m'', ''3'', ''4''] @ ''Z'' # [''M'', ''1'', ''1'']"
    by (simp add: str_split_ws_def is_space_def)
  from close_before_any_point [OF this]
  show "parse_d_attribute exact_ops ''m 3,4 Z M 1 1'' 100 = Inl IndexError" by simp
qed



section \<open>The wall filter: the stroke width\<close>

lemma extract_first_declaration:
  assumes first: "\<not> str_contains ''stroke-width:'' (pre @ ''stroke-width'')"
    and v: "CHR ''s'' \<notin> set v" "CHR ''p'' \<notin> set v" "CHR '';'' \<notin> set v"
  shows "extract_stroke_width F (pre @ ''stroke-width:'' @ v @ ''px;'' @ post)
           = Inr (case float_of_str F v of None \<Rightarrow> PyInt 0 | Some x \<Rightarrow> PyFloat x)"
proof -
  let ?style = "pre @ ''stroke-width:'' @ v @ ''px;'' @ post"
  have "str_contains ''stroke-width'' (pre @ ''stroke-width'' @ ('':'' @ v @ ''px;'' @ post))"
    by (rule str_contains_middle)
  then have mentioned: "str_contains ''stroke-width'' ?style" by simp
  have "split_from ''stroke-width:'' [] (pre @ ''stroke-width:'' @ (v @ ''px;'' @ post))
          = ([] @ pre) # split_from ''stroke-width:'' [] (v @ ''px;'' @ post)"
    by (rule split_from_first) (use first in simp_all)
  moreover obtain w ws where
    "split_from ''stroke-width:'' [] ((v @ ''px;'') @ post) = ([] @ (v @ ''px;'') @ w) # ws"
    using split_from_head_keeps [of "''stroke-width:''" "CHR ''s''" "''troke-width:''" "v @ ''px;''" "[]" post]
      v(1) by auto
  ultimately have pieces: "str_split ''stroke-width:'' ?style = pre # (v @ ''px;'' @ w) # ws"
    by (simp add: str_split_def)
  have "split_from [CHR '';''] [] ((v @ ''px'') @ CHR '';'' # w)
          = ([] @ v @ ''px'') # split_from [CHR '';''] [] w"
    by (rule split_from_char_first) (use v(3) in simp)
  then have decl: "str_split '';'' (v @ ''px;'' @ w) = (v @ ''px'') # split_from '';'' [] w"
    by (simp add: str_split_def)
  have idx1: "py_index (str_split ''stroke-width:'' ?style) 1 = Inr (v @ ''px;'' @ w)"
    using pieces by (simp add: py_index_def)
  have idx0: "py_index (str_split '';'' (v @ ''px;'' @ w)) 0 = Inr (v @ ''px'')"
    using decl by (simp add: py_index_def)
  have rep: "str_replace ''px'' '''' (v @ ''px'') = v"
    by (rule replace_px_suffix [OF v(2)])
  show ?thesis
    using mentioned idx1 idx0 rep
    by (simp add: extract_stroke_width_def py_float_def split: option.splits)
qed

lemma extract_absent:
  "\<not> str_contains ''stroke-width'' style \<Longrightarrow> extract_stroke_width F style = Inr (PyInt 0)"
  by (simp add: extract_stroke_width_def)

lemma wall_step_zero_width:
  assumes "extract_stroke_width F (attrib_get e ''style'' '''') = Inr (PyInt 0)"
  shows "wall_step F m e wall_paths = Inr wall_paths"
  using assms by (simp add: wall_step_def Let_def gt_half_def)

section \<open>The path interpreter: missing and malformed coordinates\<close>

lemma reaches_same_result:
  "reaches F commands scale st \<Longrightarrow>
     parse_loop F commands scale st = parse_loop F commands scale (0, (PyInt 0, PyInt 0), [])"
  by (induction rule: reaches.induct) simp_all

lemma coord_errors:
  "coord F commands j scale = Inl e \<Longrightarrow>
     (e = IndexError \<and> length commands \<le> j)
     \<or> (e = ValueError \<and> j < length commands \<and> float_of_str F (commands ! j) = None)"
  by (auto simp: coord_def py_index_def py_float_def split: if_splits option.splits)

lemma coord_value:
  "coord F commands j scale = Inr x \<Longrightarrow>
     j < length commands \<and> float_of_str F (commands ! j) \<noteq> None"
  by (auto simp: coord_def py_index_def py_float_def split: if_splits option.splits)

lemma coord_fails:
  "length commands \<le> j \<or> float_of_str F (commands ! j) = None \<Longrightarrow>
     \<exists>e. coord F commands j scale = Inl e \<and> (e = IndexError \<or> e = ValueError)"
  by (auto simp: coord_def py_index_def py_float_def split: if_splits option.splits)

lemma loop_body_errors:
  "loop_body F commands scale (i, cp, pts) = Inl e \<Longrightarrow> e = IndexError \<or> e = ValueError"
  by (auto simp: loop_body_def Let_def py_index_def split: if_splits sum.splits
      dest!: coord_errors)

lemma loop_body_next:
  assumes "loop_body F commands scale (i, cp, pts) = Inr (i', cp', pts')"
  shows "i' = i + 1
     \<or> (i' = i + 2 \<and> i + 1 < length commands \<and> float_of_str F (commands ! (i + 1)) \<noteq> None)
     \<or> (i' = i + 3 \<and> i + 2 < length commands \<and> float_of_str F (commands ! (i + 1)) \<noteq> None
          \<and> float_of_str F (commands ! (i + 2)) \<noteq> None)"
  using assms
  by (auto simp: loop_body_def Let_def split: if_splits sum.splits dest!: coord_value)

lemma loop_body_fault:
  assumes "coordinate_fault F commands i"
  shows "\<exists>e. loop_body F commands scale (i, cp, pts) = Inl e \<and> (e = IndexError \<or> e = ValueError)"
proof -
  from assms have
    "(commands ! i \<in> {''M'', ''L''}
        \<and> (length commands \<le> i + 2 \<or> float_of_str F (commands ! (i + 1)) = None
             \<or> float_of_str F (commands ! (i + 2)) = None))
     \<or> (commands ! i \<in> {''H'', ''V''}
        \<and> (length commands \<le> i + 1 \<or> float_of_str F (commands ! (i + 1)) = None))"
    unfolding coordinate_fault_def .
  then show ?thesis
  proof
    assume "commands ! i \<in> {''M'', ''L''}
        \<and> (length commands \<le> i + 2 \<or> float_of_str F (commands ! (i + 1)) = None
             \<or> float_of_str F (commands ! (i + 2)) = None)"
    then have cmd: "commands ! i \<in> {''M'', ''L''}"
      and bad: "length commands \<le> i + 2 \<or> float_of_str F (commands ! (i + 1)) = None
                  \<or> float_of_str F (commands ! (i + 2)) = None"
      by simp_all
    show ?thesis
    proof (cases "coord F commands (i + 1) scale")
      case (Inl e)
      with coord_errors [OF Inl] cmd show ?thesis
        by (auto simp: loop_body_def)
    next
      case (Inr x)
      from coord_value [OF Inr] bad
      have "length commands \<le> i + 2 \<or> float_of_str F (commands ! (i + 2)) = None" by auto
      from coord_fails [OF this, of scale] Inr cmd show ?thesis
        by (auto simp: loop_body_def)
    qed
  next
    assume "commands ! i \<in> {''H'', ''V''}
        \<and> (length commands \<le> i + 1 \<or> float_of_str F (commands ! (i + 1)) = None)"
    then have cmd: "commands ! i \<in> {''H'', ''V''}"
      and bad: "length commands \<le> i + 1 \<or> float_of_str F (commands ! (i + 1)) = None"
      by simp_all
    from coord_fails [OF bad, of scale] cmd show ?thesis
      by (auto simp: loop_body_def)
  qed
qed

lemma parse_loop_fault:
  assumes "i < length commands" and "coordinate_fault F commands i"
  shows "parse_loop F commands scale (i, cp, pts) \<in> {Inl IndexError, Inl ValueError}"
  using loop_body_fault [OF assms(2), of scale cp pts] assms(1) by auto

lemma parse_loop_short:
  assumes letters: "\<forall>t\<in>{''M'', ''L'', ''H'', ''V''}. float_of_str F t = None"
    and p: "p < length commands"
    and short: "(commands ! p \<in> {''M'', ''L''} \<and> length commands \<le> p + 2)
              \<or> (commands ! p \<in> {''H'', ''V''} \<and> length commands \<le> p + 1)"
  shows "i \<le> p \<Longrightarrow> parse_loop F commands scale (i, cp, pts) \<in> {Inl IndexError, Inl ValueError}"
proof (induction "p - i" arbitrary: i cp pts rule: less_induct)
  case less
  have letter: "float_of_str F (commands ! p) = None"
    using letters short by auto
  show ?case
  proof (cases "i = p")
    case True
    from short have "coordinate_fault F commands p"
      unfolding coordinate_fault_def by blast
    from parse_loop_fault [OF p this] True show ?thesis by simp
  next
    case False
    with less.prems have ip: "i < p" by simp
    with p have il: "i < length commands" by simp
    show ?thesis
    proof (cases "loop_body F commands scale (i, cp, pts)")
      case (Inl e)
      from loop_body_errors [OF Inl] Inl il show ?thesis by auto
    next
      case (Inr st)
      obtain i' cp' pts' where st: "st = (i', cp', pts')" by (cases st)
      from loop_body_next [OF Inr [unfolded st]] letter
      have "i' = i + 1 \<or> (i' = i + 2 \<and> p \<noteq> i + 1)
              \<or> (i' = i + 3 \<and> p \<noteq> i + 1 \<and> p \<noteq> i + 2)"
        by auto
      with ip have "i < i'" and "i' \<le> p"
        by auto
      then have "parse_loop F commands scale (i', cp', pts') \<in> {Inl IndexError, Inl ValueError}"
        using less.hyps [of i' cp' pts'] by simp
      with Inr st il show ?thesis by simp
    qed
  qed
qed


text \<open>
  C10. The path interpreter is not total. Let \<open>commands\<close> be the tokens of \<open>d\<close>.
  Whenever the loop arrives at an \<^verbatim>\<open>M\<close> or \<^verbatim>\<open>L\<close> with fewer than two tokens after
  it, at an \<^verbatim>\<open>H\<close> or \<^verbatim>\<open>V\<close> with no token after it, or at one of these commands with
  a coordinate token that \<^verbatim>\<open>float()\<close> rejects, \<open>parse_d_attribute\<close> raises IndexError or
  ValueError and returns no points. And when \<^verbatim>\<open>float()\<close> rejects the four command
  letters, a \<open>d\<close> string in which some \<^verbatim>\<open>M\<close> or \<^verbatim>\<open>L\<close> token has fewer than two
  tokens after it, or whose last token is \<^verbatim>\<open>H\<close> or \<^verbatim>\<open>V\<close>, always raises, wherever
  that token stands.
\<close>

theorem interpreter_raises:
  assumes "commands = str_split_ws (str_replace '','' '' '' d)"
  shows "(reaches F commands scale (i, cp, pts) \<and> i < length commands
            \<and> coordinate_fault F commands i
          \<longrightarrow> parse_d_attribute F d scale \<in> {Inl IndexError, Inl ValueError})
       \<and> ((\<forall>t\<in>{''M'', ''L'', ''H'', ''V''}. float_of_str F t = None) \<and> p < length commands
            \<and> ((commands ! p \<in> {''M'', ''L''} \<and> length commands \<le> p + 2)
                 \<or> (commands ! p \<in> {''H'', ''V''} \<and> length commands \<le> p + 1))
          \<longrightarrow> parse_d_attribute F d scale \<in> {Inl IndexError, Inl ValueError})"
proof (intro conjI impI)
  assume a: "reaches F commands scale (i, cp, pts) \<and> i < length commands
               \<and> coordinate_fault F commands i"
  then have "parse_loop F commands scale (i, cp, pts) \<in> {Inl IndexError, Inl ValueError}"
    using parse_loop_fault [of i commands F scale cp pts] by blast
  moreover from a have "parse_loop F commands scale (i, cp, pts)
                          = parse_loop F commands scale (0, (PyInt 0, PyInt 0), [])"
    using reaches_same_result [of F commands scale "(i, cp, pts)"] by blast
  ultimately show "parse_d_attribute F d scale \<in> {Inl IndexError, Inl ValueError}"
    by (simp add: parse_d_attribute_def assms)
next
  assume b: "(\<forall>t\<in>{''M'', ''L'', ''H'', ''V''}. float_of_str F t = None) \<and> p < length commands
            \<and> ((commands ! p \<in> {''M'', ''L''} \<and> length commands \<le> p + 2)
                 \<or> (commands ! p \<in> {''H'', ''V''} \<and> length commands \<le> p + 1))"
  then have "parse_loop F commands scale (0, (PyInt 0, PyInt 0), [])
               \<in> {Inl IndexError, Inl ValueError}"
    using parse_loop_short [of F p commands 0 scale "(PyInt 0, PyInt 0)" "[]"] by blast
  then show "parse_d_attribute F d scale \<in> {Inl IndexError, Inl ValueError}"
    by (simp add: parse_d_attribute_def assms)
qed

theorem interpreter_raises_witness:
  "parse_d_attribute exact_ops ''M 1 1 H x'' 100 \<in> {Inl IndexError, Inl ValueError}
   \<and> parse_d_attribute exact_ops ''M 1 1 L 2'' 100 \<in> {Inl IndexError, Inl ValueError}"
proof
  note ev = exact_ops_def decimal_value_def unsigned_value_def is_digit_def
  let ?c = "[''M'', ''1'', ''1'', ''H'', ''x'']"
  have tokens: "?c = str_split_ws (str_replace '','' '' '' ''M 1 1 H x'')"
    by (simp add: str_split_ws_def is_space_def)
  have first: "loop_body exact_ops ?c 100 (0, (PyInt 0, PyInt 0), [])
                 = Inr (3, (PyFloat 100, PyFloat 100), [(PyFloat 100, PyFloat 100)])"
    by (simp add: loop_body_def coord_def py_index_def py_float_def ev)
  have "reaches exact_ops ?c 100 (3, (PyFloat 100, PyFloat 100), [(PyFloat 100, PyFloat 100)])"
    by (rule reaches.turn [OF reaches.start _ first]) simp
  moreover have "coordinate_fault exact_ops ?c 3"
    by (simp add: coordinate_fault_def ev)
  ultimately show "parse_d_attribute exact_ops ''M 1 1 H x'' 100 \<in> {Inl IndexError, Inl ValueError}"
    using interpreter_raises [OF tokens, of exact_ops 100 3 "(PyFloat 100, PyFloat 100)"
        "[(PyFloat 100, PyFloat 100)]"]
    by simp
next
  note ev = exact_ops_def decimal_value_def unsigned_value_def is_digit_def
  let ?c = "[''M'', ''1'', ''1'', ''L'', ''2'']"
  have tokens: "?c = str_split_ws (str_replace '','' '' '' ''M 1 1 L 2'')"
    by (simp add: str_split_ws_def is_space_def)
  have letters: "\<forall>t\<in>{''M'', ''L'', ''H'', ''V''}. float_of_str exact_ops t = None"
    by (simp add: ev)
  from letters
  show "parse_d_attribute exact_ops ''M 1 1 L 2'' 100 \<in> {Inl IndexError, Inl ValueError}"
    using interpreter_raises [OF tokens, of exact_ops 100 _ _ _ 3]
    by simp
qed



section \<open>The wall filter: when it returns\<close>

text \<open>
  The exceptions that can leave the wall filter once the document is parsed are the
  IndexError of a style that names \<^verbatim>\<open>stroke-width\<close> without the colon and the
  OverflowError of \<^verbatim>\<open>** 2\<close>. Where neither can occur the filter returns a list, so the
  description of its output applies.
\<close>

lemma split_from_two_pieces:
  "sep \<noteq> [] \<Longrightarrow> str_contains sep s \<Longrightarrow> 2 \<le> length (split_from sep cur s)"
proof (induction sep cur s rule: split_from.induct)
  case (1 sep cur)
  then show ?case by simp
next
  case (2 sep cur c cs)
  show ?case
  proof (cases "prefix sep (c # cs)")
    case True
    have "split_from sep [] (drop (length sep) (c # cs)) \<noteq> []"
      by (rule split_from_not_Nil)
    then have "1 \<le> length (split_from sep [] (drop (length sep) (c # cs)))"
      by (cases "split_from sep [] (drop (length sep) (c # cs))") simp_all
    with True 2(3) show ?thesis by simp
  next
    case False
    with 2(4) have "str_contains sep cs" by simp
    with 2(2) [OF _ 2(3)] False show ?thesis by simp
  qed
qed

lemma extract_stroke_width_errors:
  "extract_stroke_width F style = Inl err \<Longrightarrow>
     err = IndexError \<and> str_contains ''stroke-width'' style
       \<and> \<not> str_contains ''stroke-width:'' style"
proof -
  assume a: "extract_stroke_width F style = Inl err"
  have ne: "str_split '';'' s \<noteq> []" for s
    by (simp add: str_split_def split_from_not_Nil)
  have two: "str_contains ''stroke-width:'' style \<Longrightarrow>
               1 < length (str_split ''stroke-width:'' style)"
    using split_from_two_pieces [of "''stroke-width:''" style "[]"]
    by (simp add: str_split_def)
  from a ne two show ?thesis
    by (auto simp: extract_stroke_width_def py_index_def py_float_def
        split: if_splits sum.splits option.splits py_error.splits)
qed

lemma probe_segment_errors:
  "probe_segment F m c r wp = Inl err \<Longrightarrow>
     err = IndexError \<or> err = ValueError
       \<or> (err = OverflowError \<and> (\<exists>x. fpow2 F x = None))"
  by (auto simp: probe_segment_def float_at_def py_index_def py_float_def calculate_distance_def
      split: sum.splits option.splits if_splits)

lemma wall_step_errors:
  assumes "wall_step F m e wp = Inl err"
  shows "(err = IndexError \<and> str_contains ''stroke-width'' (attrib_get e ''style'' '''')
            \<and> \<not> str_contains ''stroke-width:'' (attrib_get e ''style'' ''''))
       \<or> (err = OverflowError \<and> (\<exists>x. fpow2 F x = None))"
proof (cases "extract_stroke_width F (attrib_get e ''style'' '''')")
  case (Inl e1)
  from extract_stroke_width_errors [OF Inl] assms Inl show ?thesis
    by (auto simp: wall_step_def Let_def split: if_splits)
next
  case (Inr sw)
  with assms obtain e2 where
    "probe_segment F m (str_split_ws (str_replace '','' '' '' (attrib_get e ''d'' '''')))
       \<lparr>path_id = attrib_get e ''id'' ''N/A'', d_attr = attrib_get e ''d'' '''',
         style_attr = attrib_get e ''style'' ''''\<rparr> wp = Inl e2"
    and "e2 \<noteq> IndexError" and "e2 \<noteq> ValueError" and "err = e2"
    by (auto simp: wall_step_def Let_def split: if_splits sum.splits py_error.splits)
  with probe_segment_errors [OF this(1)] show ?thesis by auto
qed

lemma walls_loop_errors:
  "walls_loop F m es wp = Inl err \<Longrightarrow>
     (err = IndexError \<and> (\<exists>e\<in>set es. str_contains ''stroke-width'' (attrib_get e ''style'' '''')
            \<and> \<not> str_contains ''stroke-width:'' (attrib_get e ''style'' '''')))
       \<or> (err = OverflowError \<and> (\<exists>x. fpow2 F x = None))"
proof (induction es arbitrary: wp)
  case Nil
  then show ?case by simp
next
  case (Cons e es)
  show ?case
  proof (cases "wall_step F m e wp")
    case (Inl e1)
    with Cons.prems have "err = e1" by simp
    with wall_step_errors [OF Inl] show ?thesis by auto
  next
    case (Inr wp1)
    with Cons.prems have "walls_loop F m es wp1 = Inl err" by simp
    from Cons.IH [OF this] show ?thesis by auto
  qed
qed

lemma wall_filter_returns:
  assumes "et_parse svg_file_path = Inr root_element"
    and "\<forall>e\<in>set (iter root_element).
           str_contains ''stroke-width'' (attrib_get e ''style'' '''')
             \<longrightarrow> str_contains ''stroke-width:'' (attrib_get e ''style'' '''')"
    and "\<forall>x. fpow2 F x \<noteq> None"
  shows "\<exists>out walls. parse_svg_for_walls F et_parse svg_file_path m = (out, Inr walls)"
proof (cases "walls_loop F m (iter root_element) []")
  case (Inl err)
  from walls_loop_errors [OF Inl] assms(2,3) show ?thesis by blast
next
  case (Inr walls)
  with assms(1) show ?thesis by (simp add: parse_svg_for_walls_def)
qed

section \<open>The specification's functions and the Python string methods\<close>

text \<open>
  The functions of the specification side agree with the expressions of the script:
  \<^verbatim>\<open>s.split(sep)\<close> cuts at the first occurrence of \<open>sep\<close> and goes on after it,
  \<^verbatim>\<open>tag.split('}')[-1]\<close> is the local name, \<^verbatim>\<open>d.replace(',', ' ').split()\<close> are the
  tokens, and \<^verbatim>\<open>calculate_distance\<close> returns the Euclidean distance when it returns.
\<close>

lemma split_from_pieces:
  "sep \<noteq> [] \<Longrightarrow>
     split_from sep cur s
       = (cur @ up_to sep s)
           # (case after_first sep s of None \<Rightarrow> [] | Some r \<Rightarrow> split_from sep [] r)"
  by (induction sep cur s rule: split_from.induct) auto

lemma takeWhile_snoc_found:
  "c \<in> set xs \<Longrightarrow> takeWhile (\<lambda>x. x \<noteq> c) (xs @ ys) = takeWhile (\<lambda>x. x \<noteq> c) xs"
  by (induction xs) auto

lemma takeWhile_absent:
  "c \<notin> set xs \<Longrightarrow> takeWhile (\<lambda>x. x \<noteq> c) (xs @ ys) = xs @ takeWhile (\<lambda>x. x \<noteq> c) ys"
  by (induction xs) auto

lemma split_char_last:
  "last (split_from [c] cur s)
     = (if c \<in> set s then rev (takeWhile (\<lambda>x. x \<noteq> c) (rev s)) else cur @ s)"
proof (induction s arbitrary: cur)
  case Nil
  then show ?case by simp
next
  case (Cons x xs)
  show ?case
  proof (cases "x = c")
    case True
    have "takeWhile (\<lambda>x. x \<noteq> c) (rev xs @ [c])
            = (if c \<in> set xs then takeWhile (\<lambda>x. x \<noteq> c) (rev xs) else rev xs)"
      by (simp add: takeWhile_snoc_found takeWhile_absent)
    with True Cons.IH [of "[]"] show ?thesis
      by (simp add: split_from_not_Nil)
  next
    case False
    have "takeWhile (\<lambda>x. x \<noteq> c) (rev xs @ [x])
            = (if c \<in> set xs then takeWhile (\<lambda>x. x \<noteq> c) (rev xs) else rev xs @ [x])"
      using False by (simp add: takeWhile_snoc_found takeWhile_absent)
    with False Cons.IH [of "cur @ [x]"] show ?thesis
      by simp
  qed
qed

lemma local_name_split: "last (str_split ''}'' t) = local_name t"
proof (cases "CHR ''}'' \<in> set t")
  case True
  then show ?thesis by (simp add: str_split_def local_name_def split_char_last)
next
  case False
  then have all: "takeWhile (\<lambda>c. c \<noteq> CHR ''}'') (rev t) = rev t"
    by auto
  show ?thesis
    unfolding local_name_def all using False
    by (simp add: str_split_def split_char_last)
qed

lemma split_ws_fields:
  "split_ws_from cur s
     = (if cur = [] then field_split is_space s
        else (cur @ takeWhile (\<lambda>x. \<not> is_space x) s)
               # field_split is_space (dropWhile (\<lambda>x. \<not> is_space x) s))"
  by (induction s arbitrary: cur) auto

lemma replace_char:
  "str_replace [a] [b] s = map (\<lambda>x. if x = a then b else x) s"
  by (induction s) auto

lemma field_split_map:
  "(\<And>x. P (f x) \<longleftrightarrow> Q x) \<Longrightarrow> (\<And>x. \<not> Q x \<Longrightarrow> f x = x) \<Longrightarrow>
     field_split P (map f s) = field_split Q s"
proof (induction Q s rule: field_split.induct)
  case (1 sep)
  then show ?case by simp
next
  case (2 sep c cs)
  note same = "2.prems"(1) and fixed = "2.prems"(2)
  show ?case
  proof (cases "sep c")
    case True
    with "2.IH"(1) [OF True same fixed] same [of c] show ?thesis by simp
  next
    case False
    have nP: "(\<lambda>x. \<not> P x) \<circ> f = (\<lambda>x. \<not> sep x)"
      using same by (auto simp: fun_eq_iff)
    have "map f (takeWhile (\<lambda>x. \<not> sep x) cs) = takeWhile (\<lambda>x. \<not> sep x) cs"
      by (rule map_idI) (auto dest: set_takeWhileD intro: fixed)
    then have tw: "takeWhile (\<lambda>x. \<not> P x) (map f cs) = takeWhile (\<lambda>x. \<not> sep x) cs"
      by (simp add: takeWhile_map nP)
    have dw: "dropWhile (\<lambda>x. \<not> P x) (map f cs) = map f (dropWhile (\<lambda>x. \<not> sep x) cs)"
      by (simp add: dropWhile_map nP)
    from False same [of c] fixed [of c] "2.IH"(2) [OF False same fixed] show ?thesis
      by (simp add: tw dw)
  qed
qed

lemma d_tokens_code: "str_split_ws (str_replace '','' '' '' d) = d_tokens d"
proof -
  let ?f = "\<lambda>x. if x = CHR '','' then CHR '' '' else x"
  have "field_split is_space (map ?f d) = field_split (\<lambda>c. c = CHR '','' \<or> is_space c) d"
    by (rule field_split_map) (auto simp: is_space_def)
  then show ?thesis
    by (simp add: str_split_ws_def split_ws_fields replace_char d_tokens_def)
qed

lemma euclidean_code:
  "calculate_distance F x1 y1 x2 y2 = Inr r \<longleftrightarrow> euclidean F (x1, y1) (x2, y2) = Some r"
  by (auto simp: calculate_distance_def euclidean_def split: option.splits)

lemma euclidean_exact:
  "euclidean exact_ops (x1, y1) (x2, y2) = Some (sqrt ((x2 - x1)\<^sup>2 + (y2 - y1)\<^sup>2))"
proof -
  have "\<not> (x2 - x1) * (x2 - x1) + (y2 - y1) * (y2 - y1) < 0"
    by (simp add: not_less)
  then show ?thesis
    by (simp add: euclidean_def exact_ops_def power2_eq_square)
qed

section \<open>The wall filter: its output\<close>

lemma probe_segment_returns:
  assumes "probe_segment F m c r wp = Inr wp'"
  shows "6 \<le> length c \<and>
    (\<exists>x1 y1 x2 y2 seg. float_of_str F (c ! 1) = Some x1 \<and> float_of_str F (c ! 2) = Some y1
       \<and> float_of_str F (c ! 4) = Some x2 \<and> float_of_str F (c ! 5) = Some y2
       \<and> calculate_distance F x1 y1 x2 y2 = Inr seg
       \<and> wp' = (if fge F seg m then wp @ [r] else wp))"
  using assms
  by (auto simp: probe_segment_def float_at_def py_index_def py_float_def
      split: sum.splits option.splits if_splits)

lemma probe_segment_caught:
  assumes "probe_segment F m c r wp = Inl e" and "e = IndexError \<or> e = ValueError"
  shows "length c < 6
    \<or> float_of_str F (c ! 1) = None \<or> float_of_str F (c ! 2) = None
    \<or> float_of_str F (c ! 4) = None \<or> float_of_str F (c ! 5) = None
    \<or> (\<exists>x1 y1 x2 y2 err. float_of_str F (c ! 1) = Some x1 \<and> float_of_str F (c ! 2) = Some y1
       \<and> float_of_str F (c ! 4) = Some x2 \<and> float_of_str F (c ! 5) = Some y2
       \<and> calculate_distance F x1 y1 x2 y2 = Inl err)"
  using assms
  by (auto simp: probe_segment_def float_at_def py_index_def py_float_def
      split: sum.splits option.splits if_splits)



lemma after_first_occurs:
  "after_first sep s = Some r \<Longrightarrow> \<exists>pre. s = pre @ sep @ r"
proof (induction s)
  case Nil
  then show ?case by (auto split: if_splits)
next
  case (Cons c cs)
  show ?case
  proof (cases "prefix sep (c # cs)")
    case True
    with Cons.prems have r: "r = drop (length sep) (c # cs)" by simp
    from True obtain zs where "c # cs = sep @ zs" by (auto simp: prefix_def)
    with r have "c # cs = [] @ sep @ r" by simp
    then show ?thesis by blast
  next
    case False
    with Cons.prems have "after_first sep cs = Some r" by simp
    from Cons.IH [OF this] obtain pre where "cs = pre @ sep @ r" by blast
    then have "c # cs = (c # pre) @ sep @ r" by simp
    then show ?thesis by blast
  qed
qed

lemma extract_stroke_width_text:
  assumes "stroke_width_text style = Some t"
  shows "extract_stroke_width F style
           = Inr (case float_of_str F t of None \<Rightarrow> PyInt 0 | Some x \<Rightarrow> PyFloat x)"
proof -
  from assms obtain rest where rest: "after_first ''stroke-width:'' style = Some rest"
    and t: "t = str_replace ''px'' '''' (up_to '';'' (up_to ''stroke-width:'' rest))"
    by (auto simp: stroke_width_text_def split: option.splits)
  from after_first_occurs [OF rest] obtain pre where
    "style = pre @ ''stroke-width'' @ ('':'' @ rest)" by auto
  then have mentioned: "str_contains ''stroke-width'' style"
    using str_contains_middle [of "''stroke-width''" pre "'':'' @ rest"] by simp
  have "str_split ''stroke-width:'' style
          = up_to ''stroke-width:'' style # split_from ''stroke-width:'' [] rest"
    using split_from_pieces [of "''stroke-width:''" "[]" style] rest
    by (simp add: str_split_def)
  moreover have "split_from ''stroke-width:'' [] rest
          = up_to ''stroke-width:'' rest
              # (case after_first ''stroke-width:'' rest of None \<Rightarrow> []
                 | Some r \<Rightarrow> split_from ''stroke-width:'' [] r)"
    using split_from_pieces [of "''stroke-width:''" "[]" rest] by simp
  ultimately have idx1:
    "py_index (str_split ''stroke-width:'' style) 1 = Inr (up_to ''stroke-width:'' rest)"
    by (simp add: py_index_def)
  have idx0: "py_index (str_split '';'' u) 0 = Inr (up_to '';'' u)" for u
    using split_from_pieces [of "'';''" "[]" u]
    by (simp add: str_split_def py_index_def)
  show ?thesis
    using mentioned idx1 idx0 t
    by (simp add: extract_stroke_width_def py_float_def split: option.splits)
qed

lemma extract_no_declaration:
  assumes "stroke_width_text style = None" and "extract_stroke_width F style = Inr sw"
  shows "sw = PyInt 0"
proof -
  from assms(1) have "after_first ''stroke-width:'' style = None"
    by (simp add: stroke_width_text_def split: option.splits)
  then have "str_split ''stroke-width:'' style = [up_to ''stroke-width:'' style]"
    using split_from_pieces [of "''stroke-width:''" "[]" style]
    by (simp add: str_split_def)
  then have "py_index (str_split ''stroke-width:'' style) 1 = Inl IndexError"
    by (simp add: py_index_def)
  with assms(2) show ?thesis
    by (simp add: extract_stroke_width_def split: if_splits)
qed

lemma stroke_width_agrees:
  assumes "extract_stroke_width F style = Inr sw"
  shows "gt_half F sw = above_half F (stroke_width_text style)"
proof (cases "stroke_width_text style")
  case None
  from extract_no_declaration [OF None assms] None show ?thesis
    by (simp add: gt_half_def above_half_def)
next
  case (Some t)
  from extract_stroke_width_text [OF Some, of F] assms Some show ?thesis
    by (auto simp: gt_half_def above_half_def split: option.splits)
qed

lemma probe_segment_spec:
  assumes "probe_segment F m (str_split_ws (str_replace '','' '' '' d)) r wp = Inr wp'"
  shows "wp' = wp @ (if long_enough F m d then [r] else [])"
  using probe_segment_returns [OF assms]
  by (auto simp: long_enough_def first_segment_length_def Let_def d_tokens_code euclidean_code)

lemma probe_segment_caught_spec:
  assumes "probe_segment F m (str_split_ws (str_replace '','' '' '' d)) r wp = Inl e"
    and "e = IndexError \<or> e = ValueError"
  shows "\<not> long_enough F m d"
proof -
  have "euclidean F (x1, y1) (x2, y2) = None"
    if "calculate_distance F x1 y1 x2 y2 = Inl err" for x1 y1 x2 y2 err
    using that euclidean_code [of F x1 y1 x2 y2] by (cases "euclidean F (x1, y1) (x2, y2)") auto
  with probe_segment_caught [OF assms] show ?thesis
    by (auto simp: long_enough_def first_segment_length_def Let_def d_tokens_code
        split: option.splits)
qed

lemma short_d_no_segment:
  "\<not> 4 \<le> length (str_split_ws (str_replace '','' '' '' d)) \<Longrightarrow> \<not> long_enough F m d"
  by (simp add: long_enough_def first_segment_length_def Let_def d_tokens_code)

lemma wall_step_spec:
  assumes "wall_step F m e wp = Inr wp'"
  shows "wp' = wp @ (if is_wall F m e then [wall_record e] else [])"
proof (cases "local_name (tag e) = ''path''")
  case False
  with assms show ?thesis by (simp add: wall_step_def is_wall_def local_name_split)
next
  case path: True
  show ?thesis
  proof (cases "extract_stroke_width F (attrib_get e ''style'' [])")
    case (Inl err)
    with assms path show ?thesis by (simp add: wall_step_def local_name_split)
  next
    case (Inr sw)
    note width = stroke_width_agrees [OF Inr]
    show ?thesis
    proof (cases "gt_half F sw")
      case False
      with assms path Inr width show ?thesis
        by (simp add: wall_step_def is_wall_def local_name_split)
    next
      case wide: True
      show ?thesis
      proof (cases "4 \<le> length (str_split_ws (str_replace '','' '' '' (attrib_get e ''d'' [])))")
        case False
        from short_d_no_segment [OF False, of F m] assms path Inr wide False
        show ?thesis by (simp add: wall_step_def is_wall_def local_name_split)
      next
        case long: True
        show ?thesis
        proof (cases "probe_segment F m (str_split_ws (str_replace '','' '' '' (attrib_get e ''d'' [])))
                        (wall_record e) wp")
          case (Inl err)
          with assms path Inr wide long have "err = IndexError \<or> err = ValueError"
            by (cases err) (simp_all add: wall_step_def wall_record_def local_name_split)
          from probe_segment_caught_spec [OF Inl this] assms path Inr wide long Inl this
          show ?thesis
            by (auto simp: wall_step_def wall_record_def is_wall_def local_name_split)
        next
          case (Inr wp2)
          from probe_segment_spec [OF Inr] assms path \<open>extract_stroke_width F _ = Inr sw\<close>
            wide width long Inr
          show ?thesis
            by (auto simp: wall_step_def wall_record_def is_wall_def local_name_split)
        qed
      qed
    qed
  qed
qed

lemma walls_loop_spec:
  "walls_loop F m es wp = Inr wp' \<Longrightarrow> wp' = wp @ map wall_record (filter (is_wall F m) es)"
proof (induction es arbitrary: wp)
  case Nil
  then show ?case by simp
next
  case (Cons e es)
  then obtain wp1 where step: "wall_step F m e wp = Inr wp1"
    and rest: "walls_loop F m es wp1 = Inr wp'"
    by (auto split: sum.splits)
  from wall_step_spec [OF step] Cons.IH [OF rest] show ?case by simp
qed

lemma sqrt_100: "sqrt 100 = 10"
proof -
  have "sqrt ((10::real)\<^sup>2) = 10" by simp
  then show ?thesis by simp
qed

lemma sqrt_400: "sqrt 400 = 20"
proof -
  have "sqrt ((20::real)\<^sup>2) = 20" by simp
  then show ?thesis by simp
qed

lemma sqrt_25: "sqrt 25 = 5"
proof -
  have "sqrt ((5::real)\<^sup>2) = 5" by simp
  then show ?thesis by simp
qed

lemmas run_code =
  parse_svg_for_walls_def parsed_as_def wall_step_def str_split_def
  attrib_get_def extract_stroke_width_def py_index_def py_float_def gt_half_def
  str_split_ws_def is_space_def probe_segment_def float_at_def calculate_distance_def
  exact_ops_def decimal_value_def unsigned_value_def is_digit_def sqrt_100 sqrt_400 sqrt_25

lemmas run_spec =
  is_wall_def stated_wall_def local_name_def above_half_def long_enough_def
  stroke_width_text_def stated_stroke_width_text_def first_segment_length_def d_tokens_def
  euclidean_def wall_record_def attrib_get_def is_space_def suffix_to_prefix
  exact_ops_def decimal_value_def unsigned_value_def is_digit_def sqrt_100 sqrt_400 sqrt_25

lemma example_run:
  "parse_svg_for_walls exact_ops (parsed_as example_document) ''floor_1_small.svg'' 10
     = ([Detected 2,
         Sample [\<lparr>path_id = ''slanted'', d_attr = ''M 0,0 L 6,8'',
                   style_attr = ''fill:none;stroke-width:2px;stroke:#000''\<rparr>,
                 \<lparr>path_id = ''thick-first'', d_attr = ''M 0 0 L 12 16'',
                   style_attr = ''stroke-width:2px;stroke-width:0.1px;''\<rparr>]],
        Inr [\<lparr>path_id = ''slanted'', d_attr = ''M 0,0 L 6,8'',
               style_attr = ''fill:none;stroke-width:2px;stroke:#000''\<rparr>,
             \<lparr>path_id = ''thick-first'', d_attr = ''M 0 0 L 12 16'',
               style_attr = ''stroke-width:2px;stroke-width:0.1px;''\<rparr>])"
  by (simp add: example_document_def run_code)

lemma example_walls:
  "map wall_record (filter (is_wall exact_ops 10) (iter example_document))
     = [\<lparr>path_id = ''slanted'', d_attr = ''M 0,0 L 6,8'',
          style_attr = ''fill:none;stroke-width:2px;stroke:#000''\<rparr>,
        \<lparr>path_id = ''thick-first'', d_attr = ''M 0 0 L 12 16'',
          style_attr = ''stroke-width:2px;stroke-width:0.1px;''\<rparr>]"
  by (simp add: example_document_def run_spec)

text \<open>
  C1, as stated, fails. The specification strips a trailing \<^verbatim>\<open>px\<close>; the script removes
  every \<^verbatim>\<open>px\<close>. For the style \<^verbatim>\<open>stroke-width:1px5;\<close> the specification's text
  \<^verbatim>\<open>1px5\<close> is not a float, so the stroke width counts as 0 and the element is not a wall;
  the script reads \<^verbatim>\<open>15\<close> and, the first segment being 10 long, returns the element.
\<close>

theorem px_inside_number:
  "parse_svg_for_walls exact_ops (parsed_as odd_unit_document) ''floor_1_small.svg'' 10
     = ([Detected 1,
         Sample [\<lparr>path_id = ''N/A'', d_attr = ''M 0 0 L 6 8'', style_attr = ''stroke-width:1px5;''\<rparr>]],
        Inr [\<lparr>path_id = ''N/A'', d_attr = ''M 0 0 L 6 8'', style_attr = ''stroke-width:1px5;''\<rparr>])
   \<and> iter odd_unit_document = [odd_unit_document]
   \<and> stated_stroke_width_text ''stroke-width:1px5;'' = Some ''1px5''
   \<and> float_of_str exact_ops ''1px5'' = None
   \<and> \<not> stated_wall exact_ops 10 odd_unit_document"
  by (simp add: odd_unit_document_def run_code run_spec)

text \<open>
  C1, amended. Whenever the wall filter returns a list for a parsed document, the list
  holds, in document order, the records of exactly those elements that meet the three
  conditions of \<open>is_wall\<close>: the namespace-stripped tag is \<^verbatim>\<open>path\<close>; the text of the
  style after its first \<^verbatim>\<open>stroke-width:\<close>, up to the next \<^verbatim>\<open>;\<close> or
  \<^verbatim>\<open>stroke-width:\<close>, with every \<^verbatim>\<open>px\<close> removed, is a float above 0.5; and the
  Euclidean distance between the points read from tokens 1, 2 and tokens 4, 5 of the
  \<^verbatim>\<open>d\<close> string, tokenized on commas and whitespace, is at least \<open>m\<close>. In particular
  every record returned has a style whose stroke width is above 0.5.
\<close>

theorem wall_filter_output:
  assumes "et_parse svg_file_path = Inr root_element"
    and "parse_svg_for_walls F et_parse svg_file_path m = (out, Inr walls)"
  shows "walls = map wall_record (filter (is_wall F m) (iter root_element))
       \<and> (\<forall>r\<in>set walls. above_half F (stroke_width_text (style_attr r)))"
proof -
  from assms have "walls_loop F m (iter root_element) [] = Inr walls"
    by (auto simp: parse_svg_for_walls_def split: sum.splits)
  from walls_loop_spec [OF this]
  have eq: "walls = map wall_record (filter (is_wall F m) (iter root_element))" by simp
  have "above_half F (stroke_width_text (style_attr r))" if "r \<in> set walls" for r
  proof -
    from that eq obtain e where "is_wall F m e" and "r = wall_record e" by auto
    then show ?thesis
      by (simp add: is_wall_def wall_record_def)
  qed
  with eq show ?thesis by blast
qed

theorem wall_filter_output_witness:
  "parse_svg_for_walls exact_ops (parsed_as example_document) ''floor_1_small.svg'' 10
     = ([Detected 2,
         Sample [\<lparr>path_id = ''slanted'', d_attr = ''M 0,0 L 6,8'',
                   style_attr = ''fill:none;stroke-width:2px;stroke:#000''\<rparr>,
                 \<lparr>path_id = ''thick-first'', d_attr = ''M 0 0 L 12 16'',
                   style_attr = ''stroke-width:2px;stroke-width:0.1px;''\<rparr>]],
        Inr [\<lparr>path_id = ''slanted'', d_attr = ''M 0,0 L 6,8'',
               style_attr = ''fill:none;stroke-width:2px;stroke:#000''\<rparr>,
             \<lparr>path_id = ''thick-first'', d_attr = ''M 0 0 L 12 16'',
               style_attr = ''stroke-width:2px;stroke-width:0.1px;''\<rparr>])
   \<and> [\<lparr>path_id = ''slanted'', d_attr = ''M 0,0 L 6,8'',
         style_attr = ''fill:none;stroke-width:2px;stroke:#000''\<rparr>,
       \<lparr>path_id = ''thick-first'', d_attr = ''M 0 0 L 12 16'',
         style_attr = ''stroke-width:2px;stroke-width:0.1px;''\<rparr>]
       = map wall_record (filter (is_wall exact_ops 10) (iter example_document))
   \<and> above_half exact_ops (stroke_width_text ''fill:none;stroke-width:2px;stroke:#000'')
   \<and> above_half exact_ops (stroke_width_text ''stroke-width:2px;stroke-width:0.1px;'')"
proof -
  have parsed: "parsed_as example_document ''floor_1_small.svg'' = Inr example_document"
    by (simp add: parsed_as_def)
  from wall_filter_output [OF parsed example_run] example_run
  show ?thesis by simp
qed

section \<open>The wall filter: the stroke width, in general\<close>

text \<open>
  C3, as stated, fails: a style string can contain \<^verbatim>\<open>stroke-width:0.1px;\<close> and yet
  yield another value, because the text after the first \<^verbatim>\<open>stroke-width:\<close> is the one
  that is read. Here the style has two declarations and the first one, 2, is returned.
\<close>

theorem first_declaration_wins:
  "str_contains ''stroke-width:0.1px;'' ''stroke-width:2px;stroke-width:0.1px;''
   \<and> float_of_str exact_ops ''0.1'' = Some (1 / 10)
   \<and> extract_stroke_width exact_ops ''stroke-width:2px;stroke-width:0.1px;'' = Inr (PyFloat 2)
   \<and> extract_stroke_width exact_ops ''stroke-width:2px;stroke-width:0.1px;''
        \<noteq> Inr (PyFloat (1 / 10))"
  by (simp add: extract_stroke_width_def str_split_def py_index_def py_float_def
      exact_ops_def decimal_value_def unsigned_value_def is_digit_def)

text \<open>
  C3, amended. The extraction takes the text of the style after its first
  \<^verbatim>\<open>stroke-width:\<close>, up to the next \<^verbatim>\<open>;\<close> or \<^verbatim>\<open>stroke-width:\<close> or the end,
  removes every \<^verbatim>\<open>px\<close> and returns the float this text denotes, and the int 0 when
  the text is not a float, whatever the style looks like. So when the first
  \<^verbatim>\<open>stroke-width:\<close> is followed by \<open>v\<close>, \<^verbatim>\<open>px;\<close> (\<open>v\<close> without \<^verbatim>\<open>s\<close>, \<^verbatim>\<open>p\<close>
  and \<^verbatim>\<open>;\<close>, as every decimal literal is), the extracted stroke width is
  \<^verbatim>\<open>float(v)\<close>. When the style does not contain \<^verbatim>\<open>stroke-width\<close> the extracted
  value is 0. An element whose extracted value is 0 is not added to the result.
\<close>

theorem stroke_width_extraction:
  "(stroke_width_text style = Some t
      \<longrightarrow> extract_stroke_width F style
            = Inr (case float_of_str F t of None \<Rightarrow> PyInt 0 | Some x \<Rightarrow> PyFloat x))
   \<and> (\<not> str_contains ''stroke-width:'' (pre @ ''stroke-width'')
      \<and> CHR ''s'' \<notin> set v \<and> CHR ''p'' \<notin> set v \<and> CHR '';'' \<notin> set v
      \<longrightarrow> extract_stroke_width F (pre @ ''stroke-width:'' @ v @ ''px;'' @ post)
            = Inr (case float_of_str F v of None \<Rightarrow> PyInt 0 | Some x \<Rightarrow> PyFloat x))
   \<and> (\<not> str_contains ''stroke-width'' style \<longrightarrow> extract_stroke_width F style = Inr (PyInt 0))
   \<and> (extract_stroke_width F (attrib_get e ''style'' '''') = Inr (PyInt 0)
        \<longrightarrow> wall_step F m e wall_paths = Inr wall_paths)"
  using extract_stroke_width_text [of style t F]
    extract_first_declaration [of pre v F post] extract_absent [of style F]
    wall_step_zero_width [of F e m wall_paths]
  by blast

theorem stroke_width_extraction_witness:
  "extract_stroke_width exact_ops ''stroke-width:0.1px;'' = Inr (PyFloat (1 / 10))
   \<and> extract_stroke_width exact_ops ''fill:none;stroke-width:0.5px;stroke:#000'' = Inr (PyFloat (1 / 2))
   \<and> extract_stroke_width exact_ops ''stroke-width:0.50001px;'' = Inr (PyFloat (50001 / 100000))
   \<and> extract_stroke_width exact_ops ''stroke-width:2px;'' = Inr (PyFloat 2)
   \<and> extract_stroke_width exact_ops ''stroke-width:widepx;'' = Inr (PyInt 0)
   \<and> extract_stroke_width exact_ops ''stroke-width:1pt;'' = Inr (PyInt 0)
   \<and> extract_stroke_width exact_ops ''fill:none;stroke-width:thick'' = Inr (PyInt 0)
   \<and> extract_stroke_width exact_ops ''stroke-width:1.5'' = Inr (PyFloat (3 / 2))
   \<and> extract_stroke_width exact_ops ''stroke-width:3stroke-width:4px;'' = Inr (PyFloat 3)
   \<and> extract_stroke_width exact_ops ''fill:none'' = Inr (PyInt 0)
   \<and> wall_step exact_ops 10 (Element ''path'' [''style'' \<mapsto> ''fill:none'', ''d'' \<mapsto> ''M 0 0 L 20 0''] []) []
       = Inr []"
proof -
  note ev = exact_ops_def decimal_value_def unsigned_value_def is_digit_def
  note tx = stroke_width_text_def
  have a: "extract_stroke_width exact_ops ''stroke-width:0.1px;'' = Inr (PyFloat (1 / 10))"
    using stroke_width_extraction [of _ _ exact_ops "[]" "''0.1''" "[]"]
    by (simp add: ev)
  have b: "extract_stroke_width exact_ops ''fill:none;stroke-width:0.5px;stroke:#000''
             = Inr (PyFloat (1 / 2))"
    using stroke_width_extraction [of _ _ exact_ops "''fill:none;''" "''0.5''" "''stroke:#000''"]
    by (simp add: ev)
  have c: "extract_stroke_width exact_ops ''stroke-width:0.50001px;''
             = Inr (PyFloat (50001 / 100000))"
    using stroke_width_extraction [of _ _ exact_ops "[]" "''0.50001''" "[]"]
    by (simp add: ev)
  have d: "extract_stroke_width exact_ops ''stroke-width:2px;'' = Inr (PyFloat 2)"
    using stroke_width_extraction [of _ _ exact_ops "[]" "''2''" "[]"]
    by (simp add: ev)
  have e: "extract_stroke_width exact_ops ''stroke-width:widepx;'' = Inr (PyInt 0)"
    using stroke_width_extraction [of _ _ exact_ops "[]" "''wide''" "[]"]
    by (simp add: ev)
  have f: "extract_stroke_width exact_ops ''stroke-width:1pt;'' = Inr (PyInt 0)"
    using stroke_width_extraction [of "''stroke-width:1pt;''" "''1pt''" exact_ops]
    by (simp add: ev tx)
  have g: "extract_stroke_width exact_ops ''fill:none;stroke-width:thick'' = Inr (PyInt 0)"
    using stroke_width_extraction [of "''fill:none;stroke-width:thick''" "''thick''" exact_ops]
    by (simp add: ev tx)
  have h: "extract_stroke_width exact_ops ''stroke-width:1.5'' = Inr (PyFloat (3 / 2))"
    using stroke_width_extraction [of "''stroke-width:1.5''" "''1.5''" exact_ops]
    by (simp add: ev tx)
  have i: "extract_stroke_width exact_ops ''stroke-width:3stroke-width:4px;'' = Inr (PyFloat 3)"
    using stroke_width_extraction [of "''stroke-width:3stroke-width:4px;''" "''3''" exact_ops]
    by (simp add: ev tx)
  have j: "extract_stroke_width exact_ops ''fill:none'' = Inr (PyInt 0)"
    using stroke_width_extraction [of "''fill:none''" _ exact_ops]
    by simp
  have k: "wall_step exact_ops 10
             (Element ''path'' [''style'' \<mapsto> ''fill:none'', ''d'' \<mapsto> ''M 0 0 L 20 0''] []) []
           = Inr []"
    using stroke_width_extraction
      [of _ _ exact_ops _ _ _ "Element ''path'' [''style'' \<mapsto> ''fill:none'', ''d'' \<mapsto> ''M 0 0 L 20 0''] []" 10 "[]"]
      j
    by (simp add: attrib_get_def)
  from a b c d e f g h i j k show ?thesis by simp
qed

section \<open>The path interpreter: unrecognised tokens\<close>

text \<open>
  C9. When the loop stands at a token that is none of \<^verbatim>\<open>M\<close>, \<^verbatim>\<open>L\<close>, \<^verbatim>\<open>H\<close>,
  \<^verbatim>\<open>V\<close>, \<^verbatim>\<open>Z\<close> (a lowercase letter, \<^verbatim>\<open>C\<close>, \<^verbatim>\<open>S\<close>, \<^verbatim>\<open>Q\<close>, \<^verbatim>\<open>T\<close>,
  \<^verbatim>\<open>A\<close>, a number, anything else), that turn of the loop emits no point, leaves the
  current point alone and moves on by exactly one token. The interpreter then goes on:
  if a token follows, the result of the run is that of interpreting this next token as
  a command, in the unchanged state, and of all that follows; if none follows, the
  points emitted so far are returned. A run that gets to the skipped token gets to the
  next one.
\<close>

theorem unrecognised_token_skipped:
  assumes "i < length commands"
    and "commands ! i \<notin> {''M'', ''L'', ''H'', ''V'', ''Z''}"
  shows "loop_body F commands scale (i, current_point, points) = Inr (i + 1, current_point, points)
       \<and> parse_loop F commands scale (i, current_point, points)
           = parse_loop F commands scale (i + 1, current_point, points)
       \<and> (i + 1 < length commands \<longrightarrow>
            parse_loop F commands scale (i, current_point, points)
              = (case loop_body F commands scale (i + 1, current_point, points) of
                   Inl e \<Rightarrow> Inl e
                 | Inr st \<Rightarrow> parse_loop F commands scale st))
       \<and> (i + 1 = length commands \<longrightarrow>
            parse_loop F commands scale (i, current_point, points) = Inr points)
       \<and> (reaches F commands scale (i, current_point, points) \<longrightarrow>
            reaches F commands scale (i + 1, current_point, points))"
proof -
  have body: "loop_body F commands scale (i, current_point, points)
                = Inr (i + 1, current_point, points)"
    using assms(2) by (simp add: loop_body_def)
  then have next_state: "parse_loop F commands scale (i, current_point, points)
                = parse_loop F commands scale (i + 1, current_point, points)"
    using assms(1) by simp
  have "reaches F commands scale (i + 1, current_point, points)"
    if "reaches F commands scale (i, current_point, points)"
    using reaches.turn [OF that assms(1) body] .
  with body next_state show ?thesis by simp
qed

theorem unrecognised_token_skipped_witness:
  "loop_body exact_ops [''M'', ''1'', ''2'', ''c'', ''L'', ''3'', ''4''] 100
     (3, (PyFloat 100, PyFloat 200), [(PyFloat 100, PyFloat 200)])
     = Inr (4, (PyFloat 100, PyFloat 200), [(PyFloat 100, PyFloat 200)])
   \<and> parse_loop exact_ops [''M'', ''1'', ''2'', ''c'', ''L'', ''3'', ''4''] 100
       (3, (PyFloat 100, PyFloat 200), [(PyFloat 100, PyFloat 200)])
     = Inr [(PyFloat 100, PyFloat 200), (PyFloat 300, PyFloat 400)]
   \<and> parse_d_attribute exact_ops ''M 1 2 c L 3 4'' 100
     = Inr [(PyFloat 100, PyFloat 200), (PyFloat 300, PyFloat 400)]
   \<and> reaches exact_ops [''M'', ''1'', ''2'', ''c'', ''L'', ''3'', ''4''] 100
       (4, (PyFloat 100, PyFloat 200), [(PyFloat 100, PyFloat 200)])
   \<and> parse_loop exact_ops [''M'', ''1'', ''2'', ''c''] 100
       (3, (PyFloat 100, PyFloat 200), [(PyFloat 100, PyFloat 200)])
     = Inr [(PyFloat 100, PyFloat 200)]"
proof -
  note ev = exact_ops_def decimal_value_def unsigned_value_def is_digit_def
  let ?c = "[''M'', ''1'', ''2'', ''c'', ''L'', ''3'', ''4'']"
  let ?cp = "(PyFloat 100, PyFloat 200) :: real point"
  let ?pts = "[(PyFloat 100, PyFloat 200)] :: real point list"
  note skip = unrecognised_token_skipped
    [where i = 3 and commands = ?c and F = exact_ops and scale = 100
       and current_point = ?cp and points = ?pts]
  have tokens: "str_split_ws (str_replace '','' '' '' ''M 1 2 c L 3 4'') = ?c"
    by (simp add: str_split_ws_def is_space_def)
  have first: "loop_body exact_ops ?c 100 (0, (PyInt 0, PyInt 0), []) = Inr (3, ?cp, ?pts)"
    by (simp add: loop_body_def coord_def py_index_def py_float_def ev)
  have line: "loop_body exact_ops ?c 100 (4, ?cp, ?pts)
                = Inr (7, (PyFloat 300, PyFloat 400), ?pts @ [(PyFloat 300, PyFloat 400)])"
    by (simp add: loop_body_def coord_def py_index_def py_float_def ev)
  have at3: "reaches exact_ops ?c 100 (3, ?cp, ?pts)"
    by (rule reaches.turn [OF reaches.start _ first]) simp
  have a: "loop_body exact_ops ?c 100 (3, ?cp, ?pts) = Inr (4, ?cp, ?pts)"
    using skip by simp
  have b: "parse_loop exact_ops ?c 100 (3, ?cp, ?pts)
             = Inr [(PyFloat 100, PyFloat 200), (PyFloat 300, PyFloat 400)]"
    using skip line by simp
  have "parse_loop exact_ops ?c 100 (0, (PyInt 0, PyInt 0), [])
          = parse_loop exact_ops ?c 100 (3, ?cp, ?pts)"
    using first by simp
  with b have c: "parse_d_attribute exact_ops ''M 1 2 c L 3 4'' 100
             = Inr [(PyFloat 100, PyFloat 200), (PyFloat 300, PyFloat 400)]"
    unfolding parse_d_attribute_def tokens by simp
  have d: "reaches exact_ops ?c 100 (4, ?cp, ?pts)"
    using skip at3 by simp
  have e: "parse_loop exact_ops [''M'', ''1'', ''2'', ''c''] 100 (3, ?cp, ?pts) = Inr ?pts"
    using unrecognised_token_skipped
      [where i = 3 and commands = "[''M'', ''1'', ''2'', ''c'']" and F = exact_ops
         and scale = 100 and current_point = ?cp and points = ?pts]
    by simp
  from a b c d e show ?thesis by simp
qed

end
